theory Spec2Isabelle
  imports
    Complex_Main
    "HOL-Library.Word"
    "HOL-Library.AList"
    "HOL-Library.List_Lexorder"
    "HOL-Library.Option_ord"
    "HOL-Library.Product_Lexorder"
    "HOL-Library.Multiset"
begin

section \<open>Pickleball Analytics API: a shallow embedding of main.py and schemas.py\<close>

text \<open>
  The service is a set of FastAPI handlers over a MongoDB database. The handlers are
  embedded as functions of the database handle (\<open>None\<close> when no connection is
  configured) and of the validated request; a raised exception is the \<open>Inl\<close> branch
  of the result. The engine's work (find, count, the aggregation stages) is written
  out as list functions over the collections, one function per operator the source
  uses.
\<close>

subsection \<open>Errors\<close>

text \<open>
  \<open>HTTPException\<close> is what the handlers raise themselves. A request body that fails
  the pydantic model is FastAPI's \<open>RequestValidationError\<close> (answered with 422); an
  exception of the driver is not caught by any handler and is answered with 500.
\<close>

datatype problem = FieldRequired | WrongType | OutOfRange | NotInLiteral

datatype error =
    HTTPException (status_code: int) (detail: string)
  | RequestValidationError "(string \<times> problem) list"
  | OperationFailure
  | DuplicateKeyError

fun http_status :: "error \<Rightarrow> int" where
  "http_status (HTTPException code msg) = code"
| "http_status (RequestValidationError errs) = 422"
| "http_status OperationFailure = 500"
| "http_status DuplicateKeyError = 500"

subsection \<open>bson.ObjectId and the helper \<open>oid\<close>\<close>

text \<open>
  An ObjectId holds the bytes it was built from. \<open>ObjectId(s)\<close> on a \<open>str\<close> accepts
  \<open>s\<close> when \<open>len(s) == 24\<close> and \<open>bytes.fromhex(s)\<close> succeeds, and raises
  \<open>InvalidId\<close> otherwise; \<open>str(o)\<close> is \<open>binascii.hexlify\<close> of the bytes, in lower
  case. \<open>bytes.fromhex\<close> reads two hexadecimal digits of either case per byte and
  skips ASCII whitespace in front of a byte. A \<open>string\<close> is the list of the
  characters of the Python \<open>str\<close>.
\<close>

type_synonym byte = "8 word"

datatype ObjectId = ObjectId (binary: "byte list")

definition is_space :: "char \<Rightarrow> bool" where
  "is_space c = (c \<in> set [CHR '' '', CHR 0x09, CHR 0x0A, CHR 0x0B, CHR 0x0C, CHR 0x0D])"

definition hex_value :: "char \<Rightarrow> nat option" where
  "hex_value c =
     (if c \<in> set ''0123456789'' then Some (of_char c - 48)
      else if c \<in> set ''abcdef'' then Some (of_char c - 87)
      else if c \<in> set ''ABCDEF'' then Some (of_char c - 55)
      else None)"

fun fromhex :: "string \<Rightarrow> byte list option" where
  "fromhex [] = Some []"
| "fromhex (c # cs) =
     (if is_space c then fromhex cs
      else (case cs of
              [] \<Rightarrow> None
            | d # ds \<Rightarrow>
                (case (hex_value c, hex_value d) of
                   (Some hi, Some lo) \<Rightarrow> map_option ((#) (of_nat (16 * hi + lo))) (fromhex ds)
                 | _ \<Rightarrow> None)))"

definition hex_char :: "nat \<Rightarrow> char" where
  "hex_char n = ''0123456789abcdef'' ! n"

definition hexlify :: "byte list \<Rightarrow> string" where
  "hexlify bs = concat (map (\<lambda>b. [hex_char (unat b div 16), hex_char (unat b mod 16)]) bs)"

definition ObjectId_of_str :: "string \<Rightarrow> ObjectId option" where
  "ObjectId_of_str s = (if length s = 24 then map_option ObjectId (fromhex s) else None)"

definition str_ObjectId :: "ObjectId \<Rightarrow> string" where
  "str_ObjectId i = hexlify (binary i)"

definition oid :: "string \<Rightarrow> error + ObjectId" where
  "oid oid_str =
     (case ObjectId_of_str oid_str of
        Some i \<Rightarrow> Inr i
      | None \<Rightarrow> Inl (HTTPException 400 ''Invalid ObjectId format''))"

definition lower :: "char \<Rightarrow> char" where
  "lower c =
     (case map_of (zip ''ABCDEFGHIJKLMNOPQRSTUVWXYZ'' ''abcdefghijklmnopqrstuvwxyz'') c of
        Some l \<Rightarrow> l
      | None \<Rightarrow> c)"

subsection \<open>Documents and \<open>to_serializable\<close>\<close>

text \<open>
  A Python \<open>dict\<close> is an association list in insertion order with distinct keys:
  \<open>d.get(k)\<close> is \<open>map_of d k\<close>, \<open>d.pop(k)\<close> removes the entry, and \<open>d[k] = v\<close>
  overwrites the entry in place or appends a new one (\<open>AList.update\<close>). The values
  \<open>to_serializable\<close> tells apart are \<open>None\<close>, an ObjectId and everything else; of
  the rest only \<open>str\<close> has a rendering that is fixed here, the others are rendered
  by the parameter \<open>str_other\<close> (Python's \<open>str\<close> on numbers, booleans and datetimes).

  \<open>to_serializable\<close> rebinds its parameter to \<open>dict(doc)\<close> and then mutates that
  object. To say which object is written, the dicts live in a heap (a list of
  objects addressed by position) and the function takes and returns a reference.
\<close>

datatype 'a val = VNone | VObjectId ObjectId | VStr string | VOther 'a

type_synonym 'a pydict = "(string \<times> 'a val) list"

type_synonym 'a heap = "'a pydict list"

definition py_str :: "('a \<Rightarrow> string) \<Rightarrow> 'a val \<Rightarrow> string" where
  "py_str str_other v =
     (case v of
        VNone \<Rightarrow> ''None''
      | VObjectId i \<Rightarrow> str_ObjectId i
      | VStr s \<Rightarrow> s
      | VOther x \<Rightarrow> str_other x)"

definition isinstance_ObjectId :: "'a val \<Rightarrow> bool" where
  "isinstance_ObjectId v = (case v of VObjectId i \<Rightarrow> True | _ \<Rightarrow> False)"

definition new_dict :: "'a heap \<Rightarrow> 'a pydict \<Rightarrow> 'a heap \<times> nat" where
  "new_dict h d = (h @ [d], length h)"

definition setitem :: "'a heap \<Rightarrow> nat \<Rightarrow> string \<Rightarrow> 'a val \<Rightarrow> 'a heap" where
  "setitem h r k v = h[r := AList.update k v (h ! r)]"

definition pop :: "'a heap \<Rightarrow> nat \<Rightarrow> string \<Rightarrow> 'a heap" where
  "pop h r k = h[r := AList.delete k (h ! r)]"

definition to_serializable :: "('a \<Rightarrow> string) \<Rightarrow> 'a heap \<Rightarrow> nat \<Rightarrow> 'a heap \<times> nat" where
  "to_serializable str_other h doc =
     (let (h1, doc') = new_dict h (h ! doc);
          h2 = (case map_of (h1 ! doc') ''_id'' of
                  None \<Rightarrow> h1
                | Some VNone \<Rightarrow> h1
                | Some v \<Rightarrow> setitem (pop h1 doc' ''_id'') doc' ''id'' (VStr (py_str str_other v)));
          h3 = fold (\<lambda>(k, v) h'. if isinstance_ObjectId v
                                   then setitem h' doc' k (VStr (py_str str_other v)) else h')
                    (h2 ! doc') h2
      in (h3, doc'))"

text \<open>The handlers serialise rows that the cursor has just built: a heap of one object.\<close>

definition serialized :: "('a \<Rightarrow> string) \<Rightarrow> 'a pydict \<Rightarrow> 'a pydict" where
  "serialized str_other d = (let (h, r) = to_serializable str_other [d] 0 in h ! r)"

subsection \<open>The schemas (schemas.py)\<close>

text \<open>
  The three pydantic models. A \<open>float\<close> is kept as the rational that the double
  denotes; the function \<open>double\<close>, which takes a rational to the IEEE double
  nearest to it, is a parameter of every definition that rounds. A \<open>datetime\<close> is
  kept as the instant BSON stores (milliseconds since the epoch). \<open>Match\<close>
  and \<open>Point\<close> are read twice: with \<open>str\<close> identifiers as the request carries
  them, and with ObjectIds as the handlers store them.
\<close>

datatype hand = Left | Right

datatype shot = Serve | Return | Drive | Drop | Dink | Lob | Volley | Smash | Other

record Player =
  name :: string
  rating :: "rat option"
  handedness :: "hand option"

record 'i Match =
  player_a_id :: 'i
  player_b_id :: 'i
  location :: "string option"
  level :: "string option"
  started_at :: "int option"
  completed_at :: "int option"

record ('i, 'w) Point =
  match_id :: 'i
  scorer_id :: 'i
  rally_length :: int
  winner_shot :: 'w
  unforced_error :: bool
  point_notes :: "string option"

text \<open>
  Validation of a request body against \<open>Player\<close>. What the body holds for a field is
  either nothing, JSON \<open>null\<close>, a value the field's type does not accept, or a
  value it accepts. \<open>name: str = Field(...)\<close> is required and carries no constraint
  on the text; \<open>rating\<close> is \<open>Optional[float]\<close> with \<open>ge=0, le=6.0\<close> and default
  \<open>None\<close>: the body holds a JSON number, and the bounds are tested on the double it
  is read as; \<open>handedness\<close> is an optional literal. pydantic reports the failures
  of all fields together.
\<close>

datatype 'a input = Missing | JsonNull | Mistyped | Given 'a

record PlayerBody =
  name_in :: "string input"
  rating_in :: "rat input"
  handedness_in :: "string input"

definition required_str :: "string input \<Rightarrow> problem + string" where
  "required_str x =
     (case x of
        Missing \<Rightarrow> Inl FieldRequired
      | JsonNull \<Rightarrow> Inl WrongType
      | Mistyped \<Rightarrow> Inl WrongType
      | Given s \<Rightarrow> Inr s)"

definition optional_float :: "(rat \<Rightarrow> rat) \<Rightarrow> rat \<Rightarrow> rat \<Rightarrow> rat input \<Rightarrow> problem + rat option" where
  "optional_float double ge le x =
     (case x of
        Missing \<Rightarrow> Inr None
      | JsonNull \<Rightarrow> Inr None
      | Mistyped \<Rightarrow> Inl WrongType
      | Given v \<Rightarrow> if ge \<le> double v \<and> double v \<le> le then Inr (Some (double v))
                  else Inl OutOfRange)"

definition optional_hand :: "string input \<Rightarrow> problem + hand option" where
  "optional_hand x =
     (case x of
        Missing \<Rightarrow> Inr None
      | JsonNull \<Rightarrow> Inr None
      | Mistyped \<Rightarrow> Inl NotInLiteral
      | Given s \<Rightarrow> if s = ''left'' then Inr (Some Left)
                  else if s = ''right'' then Inr (Some Right)
                  else Inl NotInLiteral)"

definition field_errors :: "string \<Rightarrow> problem + 'a \<Rightarrow> (string \<times> problem) list" where
  "field_errors loc r = (case r of Inl p \<Rightarrow> [(loc, p)] | Inr v \<Rightarrow> [])"

definition validate_Player :: "(rat \<Rightarrow> rat) \<Rightarrow> PlayerBody \<Rightarrow> error + Player" where
  "validate_Player double body =
     (let n = required_str (name_in body);
          r = optional_float double 0 6 (rating_in body);
          h = optional_hand (handedness_in body)
      in case (n, r, h) of
           (Inr n', Inr r', Inr h') \<Rightarrow> Inr \<lparr>name = n', rating = r', handedness = h'\<rparr>
         | _ \<Rightarrow> Inl (RequestValidationError
                    (field_errors ''name'' n @ field_errors ''rating'' r
                     @ field_errors ''handedness'' h)))"

subsection \<open>The database\<close>

text \<open>
  A collection is the list of its documents in natural order; the documents are the
  ones the create handlers write, each with the \<open>_id\<close> the driver gave it. A field
  of a stored document that the writer may leave out is absent, \<open>null\<close> or
  present. The global \<open>db\<close> is \<open>None\<close> when no connection is configured.
\<close>

datatype 'a field = Absent | Null | Present 'a

record player_doc = Player +
  player_doc_id :: ObjectId

record match_doc = "ObjectId Match" +
  match_doc_id :: ObjectId

record point_doc = "(ObjectId, shot field) Point" +
  point_doc_id :: ObjectId

record database =
  player_coll :: "player_doc list"
  match_coll :: "match_doc list"
  point_coll :: "point_doc list"

definition not_configured :: error where
  "not_configured = HTTPException 500 ''Database not configured''"

text \<open>
  The operations of the driver and the stages of the aggregation pipelines.
  \<open>insert_one\<close> stores the document under the \<open>_id\<close> generated for it; the unique
  index on \<open>_id\<close> refuses an identifier that is already there. \<open>$limit\<close> takes a
  positive 64-bit integer: the engine rejects any other pipeline. \<open>$sort\<close> with
  direction \<open>-1\<close> is descending in the key (\<open>null\<close> sorts below every date);
  the order among equal keys, like the order in which \<open>$group\<close> emits its groups,
  is the engine's choice, and is fixed here as the functions below compute it.
  \<open>$avg\<close> of integers is the double nearest to the quotient of their sum and their
  number, and \<open>null\<close> when there is none.
\<close>

definition insert_one :: "('d \<Rightarrow> ObjectId) \<Rightarrow> 'd list \<Rightarrow> 'd \<Rightarrow> error + 'd list" where
  "insert_one ident coll doc =
     (if ident doc \<in> set (map ident coll) then Inl DuplicateKeyError else Inr (coll @ [doc]))"

definition find_one :: "('d \<Rightarrow> bool) \<Rightarrow> 'd list \<Rightarrow> 'd option" where
  "find_one query coll = (case filter query coll of [] \<Rightarrow> None | d # ds \<Rightarrow> Some d)"

definition count_documents :: "('d \<Rightarrow> bool) \<Rightarrow> 'd list \<Rightarrow> nat" where
  "count_documents query coll = length (filter query coll)"

definition sort_stage_desc :: "('d \<Rightarrow> 'k::linorder) \<Rightarrow> 'd list \<Rightarrow> 'd list" where
  "sort_stage_desc key rows = rev (sort_key key rows)"

definition limit_stage :: "int \<Rightarrow> 'd list \<Rightarrow> error + 'd list" where
  "limit_stage limit rows =
     (if limit \<le> 0 \<or> 2 ^ 63 \<le> limit then Inl OperationFailure else Inr (take (nat limit) rows))"

definition lookup_stage :: "('d \<Rightarrow> 'k) \<Rightarrow> ('f \<Rightarrow> 'k) \<Rightarrow> 'f list \<Rightarrow> 'd list \<Rightarrow> ('d \<times> 'f list) list" where
  "lookup_stage localField foreignField from rows =
     map (\<lambda>d. (d, filter (\<lambda>f. foreignField f = localField d) from)) rows"

definition unwind_stage :: "('r \<Rightarrow> 'f list) \<Rightarrow> ('r \<Rightarrow> 'f option \<Rightarrow> 's) \<Rightarrow> 'r list \<Rightarrow> 's list" where
  "unwind_stage path put rows =
     concat (map (\<lambda>r. if path r = [] then [put r None] else map (\<lambda>f. put r (Some f)) (path r)) rows)"

definition group_stage :: "('d \<Rightarrow> 'k) \<Rightarrow> 'd list \<Rightarrow> ('k \<times> 'd list) list" where
  "group_stage key rows = map (\<lambda>k. (k, filter (\<lambda>d. key d = k) rows)) (remdups (map key rows))"

definition avg :: "(rat \<Rightarrow> rat) \<Rightarrow> int list \<Rightarrow> rat option" where
  "avg double xs =
     (if xs = [] then None else Some (double (of_int (sum_list xs) / of_nat (length xs))))"

definition field_value :: "'a field \<Rightarrow> 'a option" where
  "field_value f = (case f of Present x \<Rightarrow> Some x | _ \<Rightarrow> None)"

subsection \<open>Rows and responses\<close>

text \<open>
  The rows an aggregation returns are dicts. Their values other than \<open>None\<close>,
  ObjectIds and strings are numbers, booleans and datetimes.
\<close>

datatype scalar = SInt int | SFloat rat | SDatetime int | SBool bool

definition opt_val :: "('b \<Rightarrow> 'a val) \<Rightarrow> 'b option \<Rightarrow> 'a val" where
  "opt_val f x = (case x of None \<Rightarrow> VNone | Some y \<Rightarrow> f y)"

definition hand_str :: "hand \<Rightarrow> string" where
  "hand_str h = (case h of Left \<Rightarrow> ''left'' | Right \<Rightarrow> ''right'')"

definition player_document :: "player_doc \<Rightarrow> scalar pydict" where
  "player_document p =
     [(''_id'', VObjectId (player_doc_id p)),
      (''name'', VStr (name p)),
      (''rating'', opt_val (\<lambda>r. VOther (SFloat r)) (rating p)),
      (''handedness'', opt_val (\<lambda>h. VStr (hand_str h)) (handedness p))]"

text \<open>
  The \<open>$project\<close> of \<open>recent_matches\<close>: \<open>_id\<close> and the four included fields of
  the match, then \<open>player_a\<close> and \<open>player_b\<close> as \<open>$player_a.name\<close> and
  \<open>$player_b.name\<close>, each left out when the lookup found no player.
\<close>

definition project_match :: "(match_doc \<times> player_doc option) \<times> player_doc option \<Rightarrow> scalar pydict" where
  "project_match r =
     (let m = fst (fst r); player_a = snd (fst r); player_b = snd r
      in [(''_id'', VObjectId (match_doc_id m)),
          (''location'', opt_val VStr (location m)),
          (''level'', opt_val VStr (level m)),
          (''started_at'', opt_val (\<lambda>t. VOther (SDatetime t)) (started_at m)),
          (''completed_at'', opt_val (\<lambda>t. VOther (SDatetime t)) (completed_at m))]
         @ (case player_a of None \<Rightarrow> [] | Some p \<Rightarrow> [(''player_a'', VStr (name p))])
         @ (case player_b of None \<Rightarrow> [] | Some p \<Rightarrow> [(''player_b'', VStr (name p))]))"

text \<open>
  The \<open>$group\<close> and \<open>$project\<close> of \<open>leaderboard\<close>. The projection keeps \<open>_id\<close>
  (nothing excludes it) beside \<open>player_id\<close>, its \<open>$toString\<close>.
\<close>

definition group_scorer :: "(rat \<Rightarrow> rat) \<Rightarrow> ObjectId \<times> point_doc list \<Rightarrow> ObjectId \<times> nat \<times> rat option" where
  "group_scorer double g = (fst g, length (snd g), avg double (map rally_length (snd g)))"

definition project_leader :: "(ObjectId \<times> nat \<times> rat option) \<times> player_doc option \<Rightarrow> scalar pydict" where
  "project_leader r =
     (let g = fst r; player = snd r
      in [(''_id'', VObjectId (fst g)),
          (''points_won'', VOther (SInt (int (fst (snd g))))),
          (''avg_rally'', opt_val (\<lambda>a. VOther (SFloat a)) (snd (snd g))),
          (''player_id'', VStr (str_ObjectId (fst g)))]
         @ (case player of None \<Rightarrow> [] | Some p \<Rightarrow> [(''name'', VStr (name p))]))"

definition points_won_key :: "scalar pydict \<Rightarrow> int" where
  "points_won_key row = (case map_of row ''points_won'' of Some (VOther (SInt n)) \<Rightarrow> n | _ \<Rightarrow> 0)"

subsection \<open>The handlers (main.py)\<close>

text \<open>
  Modelled from the spec: \<open>create_document\<close> and \<open>get_documents\<close> of the module
  \<open>database\<close>, which is not among the sources. The spec gives the gateway as
  \<open>insert(collectionName, record) -> generatedId\<close> and
  \<open>findAll(collectionName) -> sequence of records\<close>; the generated identifier
  leaves the service as a string.
\<close>

definition create_document_player :: "database \<Rightarrow> Player \<Rightarrow> ObjectId \<Rightarrow> error + (string \<times> database)" where
  "create_document_player d data new_id =
     (case insert_one player_doc_id (player_coll d)
             \<lparr>name = name data, rating = rating data, handedness = handedness data,
              player_doc_id = new_id\<rparr> of
        Inl e \<Rightarrow> Inl e
      | Inr coll \<Rightarrow> Inr (str_ObjectId new_id, d\<lparr>player_coll := coll\<rparr>))"

definition get_documents_player :: "database \<Rightarrow> scalar pydict list" where
  "get_documents_player d = map player_document (player_coll d)"

text \<open>
  Each handler takes the global \<open>db\<close> and its validated arguments. A handler that
  inserts also takes \<open>new_id\<close>, the ObjectId the driver generates for the document,
  and returns the database after the insert beside the identifier it answers with.
\<close>

definition create_player :: "database option \<Rightarrow> Player \<Rightarrow> ObjectId \<Rightarrow> error + (string \<times> database)" where
  "create_player db player new_id =
     (case db of
        None \<Rightarrow> Inl not_configured
      | Some d \<Rightarrow> create_document_player d player new_id)"

definition list_players :: "(scalar \<Rightarrow> string) \<Rightarrow> database option \<Rightarrow> error + scalar pydict list" where
  "list_players str_other db =
     (case db of
        None \<Rightarrow> Inl not_configured
      | Some d \<Rightarrow> Inr (map (serialized str_other) (get_documents_player d)))"

definition create_match :: "database option \<Rightarrow> string Match \<Rightarrow> ObjectId \<Rightarrow> error + (string \<times> database)" where
  "create_match db m new_id =
     (case db of
        None \<Rightarrow> Inl not_configured
      | Some d \<Rightarrow>
          (case oid (player_a_id m) of
             Inl e \<Rightarrow> Inl e
           | Inr a \<Rightarrow>
               (case oid (player_b_id m) of
                  Inl e \<Rightarrow> Inl e
                | Inr b \<Rightarrow>
                    (case insert_one match_doc_id (match_coll d)
                            \<lparr>player_a_id = a, player_b_id = b, location = location m,
                             level = level m, started_at = started_at m,
                             completed_at = completed_at m, match_doc_id = new_id\<rparr> of
                       Inl e \<Rightarrow> Inl e
                     | Inr coll \<Rightarrow> Inr (str_ObjectId new_id, d\<lparr>match_coll := coll\<rparr>)))))"

definition recent_matches :: "(scalar \<Rightarrow> string) \<Rightarrow> database option \<Rightarrow> int \<Rightarrow> error + scalar pydict list" where
  "recent_matches str_other db limit =
     (case db of
        None \<Rightarrow> Inl not_configured
      | Some d \<Rightarrow>
          (case limit_stage limit
                  (sort_stage_desc (\<lambda>m. (started_at m, binary (match_doc_id m))) (match_coll d)) of
             Inl e \<Rightarrow> Inl e
           | Inr limited \<Rightarrow>
               (let a = lookup_stage player_a_id player_doc_id (player_coll d) limited;
                    b = lookup_stage (\<lambda>r. player_b_id (fst r)) player_doc_id (player_coll d) a;
                    ua = unwind_stage (\<lambda>r. snd (fst r)) (\<lambda>r f. ((fst (fst r), f), snd r)) b;
                    ub = unwind_stage snd (\<lambda>r f. (fst r, f)) ua;
                    rows = map project_match ub
                in Inr (map (serialized str_other) rows))))"

definition create_point :: "database option \<Rightarrow> (string, shot option) Point \<Rightarrow> ObjectId \<Rightarrow> error + (string \<times> database)" where
  "create_point db point new_id =
     (case db of
        None \<Rightarrow> Inl not_configured
      | Some d \<Rightarrow>
          (case oid (match_id point) of
             Inl e \<Rightarrow> Inl e
           | Inr m \<Rightarrow>
               (case oid (scorer_id point) of
                  Inl e \<Rightarrow> Inl e
                | Inr s \<Rightarrow>
                    (case insert_one point_doc_id (point_coll d)
                            \<lparr>match_id = m, scorer_id = s, rally_length = rally_length point,
                             winner_shot = (case winner_shot point of
                                              None \<Rightarrow> Absent
                                            | Some w \<Rightarrow> Present w),
                             unforced_error = unforced_error point,
                             point_notes = point_notes point, point_doc_id = new_id\<rparr> of
                       Inl e \<Rightarrow> Inl e
                     | Inr coll \<Rightarrow> Inr (str_ObjectId new_id, d\<lparr>point_coll := coll\<rparr>)))))"

definition leaderboard :: "(rat \<Rightarrow> rat) \<Rightarrow> database option \<Rightarrow> int \<Rightarrow> error + scalar pydict list" where
  "leaderboard double db limit =
     (case db of
        None \<Rightarrow> Inl not_configured
      | Some d \<Rightarrow>
          (let grouped = map (group_scorer double) (group_stage scorer_id (point_coll d));
               looked = lookup_stage fst player_doc_id (player_coll d) grouped;
               unwound = unwind_stage snd (\<lambda>r f. (fst r, f)) looked;
               projected = map project_leader unwound;
               sorted = sort_stage_desc points_won_key projected
           in limit_stage limit sorted))"

text \<open>
  The summary \<open>player_analytics\<close> returns. A local of the handler that has the
  name of one of its keys is written with a prime.
\<close>

record Totals =
  points_won :: nat
  points_lost :: nat
  avg_rally :: "rat option"

record Analytics =
  player :: "string option"
  totals :: Totals
  shot_distribution :: "(shot \<times> nat) list"
  matches :: nat

definition player_analytics :: "(rat \<Rightarrow> rat) \<Rightarrow> database option \<Rightarrow> string \<Rightarrow> error + Analytics" where
  "player_analytics double db player_id =
     (case db of
        None \<Rightarrow> Inl not_configured
      | Some d \<Rightarrow>
          (case oid player_id of
             Inl e \<Rightarrow> Inl e
           | Inr player_oid \<Rightarrow>
               (let matches' = filter (\<lambda>m. player_a_id m = player_oid \<or> player_b_id m = player_oid)
                                 (match_coll d);
                    match_ids = map match_doc_id matches'
                in if match_ids = []
                   then Inr \<lparr>player = map_option name
                                        (find_one (\<lambda>p. player_doc_id p = player_oid) (player_coll d)),
                             totals = \<lparr>points_won = 0, points_lost = 0, avg_rally = None\<rparr>,
                             shot_distribution = [], matches = 0\<rparr>
                   else
                     (let won_count = count_documents
                            (\<lambda>p. match_id p \<in> set match_ids \<and> scorer_id p = player_oid) (point_coll d);
                          lost_count = count_documents
                            (\<lambda>p. match_id p \<in> set match_ids \<and> scorer_id p \<noteq> player_oid) (point_coll d);
                          avg_cursor = map (\<lambda>g. avg double (map rally_length (snd g)))
                            (group_stage (\<lambda>p. ())
                               (filter (\<lambda>p. match_id p \<in> set match_ids) (point_coll d)));
                          avg_rally' = (case avg_cursor of [] \<Rightarrow> None | r # rs \<Rightarrow> r);
                          shot_rows = sort_stage_desc snd
                            (map (\<lambda>g. (fst g, length (snd g)))
                               (group_stage (\<lambda>p. field_value (winner_shot p))
                                  (filter (\<lambda>p. match_id p \<in> set match_ids \<and> scorer_id p = player_oid
                                              \<and> winner_shot p \<noteq> Absent) (point_coll d))));
                          shot_distribution' = concat (map (\<lambda>r. case fst r of
                                                                  None \<Rightarrow> []
                                                                | Some w \<Rightarrow> [(w, snd r)]) shot_rows);
                          player_doc = find_one (\<lambda>p. player_doc_id p = player_oid) (player_coll d)
                      in Inr \<lparr>player = map_option name player_doc,
                              totals = \<lparr>points_won = won_count, points_lost = lost_count,
                                        avg_rally = avg_rally'\<rparr>,
                              shot_distribution = shot_distribution',
                              matches = length matches'\<rparr>))))"

subsection \<open>The vocabulary of the claims\<close>

text \<open>
  The matches of a player are the stored matches that name the player on either
  side; the points in the player's matches are the stored points whose \<open>match_id\<close>
  is the \<open>_id\<close> of one of them.
\<close>

definition matches_of :: "database \<Rightarrow> ObjectId \<Rightarrow> match_doc list" where
  "matches_of d i = filter (\<lambda>m. player_a_id m = i \<or> player_b_id m = i) (match_coll d)"

definition points_in_matches_of :: "database \<Rightarrow> ObjectId \<Rightarrow> point_doc list" where
  "points_in_matches_of d i =
     filter (\<lambda>p. \<exists>m\<in>set (matches_of d i). match_doc_id m = match_id p) (point_coll d)"

text \<open>
  One match is at least as recent as another when it started later, or at the same
  time (or both have no start time) with an identifier that is not smaller. A match
  with no start time is older than every match that has one.
\<close>

definition at_least_as_recent :: "match_doc \<Rightarrow> match_doc \<Rightarrow> bool" where
  "at_least_as_recent a b =
     (started_at b < started_at a
      \<or> (started_at b = started_at a \<and> binary (match_doc_id b) \<le> binary (match_doc_id a)))"

text \<open>
  A string is made of hexadecimal pairs when it is a sequence of ASCII whitespace
  characters and of pairs of adjacent hexadecimal digits.
\<close>

inductive hex_pairs :: "string \<Rightarrow> bool" where
  no_chars: "hex_pairs []"
| whitespace: "is_space c \<Longrightarrow> hex_pairs s \<Longrightarrow> hex_pairs (c # s)"
| digits: "hex_value c \<noteq> None \<Longrightarrow> hex_value d \<noteq> None \<Longrightarrow> hex_pairs s \<Longrightarrow> hex_pairs (c # d # s)"

code_pred hex_pairs .

text \<open>
  A value is stringified when an ObjectId is replaced by its string and any other
  value is kept.
\<close>

definition stringified :: "('a \<Rightarrow> string) \<Rightarrow> 'a val \<Rightarrow> 'a val" where
  "stringified str_other v = (if isinstance_ObjectId v then VStr (py_str str_other v) else v)"

text \<open>
  The count of a category in a shot distribution is its entry, 0 when the category is
  not a key. The winning shots of a player in a category are the points in the
  player's matches that the player scored and that store this category.
\<close>

definition shot_count :: "(shot \<times> nat) list \<Rightarrow> shot \<Rightarrow> nat" where
  "shot_count sd w = (case map_of sd w of None \<Rightarrow> 0 | Some n \<Rightarrow> n)"

definition winning_shots :: "database \<Rightarrow> ObjectId \<Rightarrow> shot \<Rightarrow> nat" where
  "winning_shots d i w =
     length (filter (\<lambda>p. scorer_id p = i \<and> winner_shot p = Present w) (points_in_matches_of d i))"

subsection \<open>A small database\<close>

text \<open>
  Two players, Ann and Bob, and a third identifier with no player document; three
  matches that start at 100, 200 and 300; eight points, three scored by Ann and five
  by Bob.
\<close>

text \<open>
  Between \<open>2 ^ e\<close> and \<open>2 ^ (e + 1)\<close> the doubles are the multiples of
  \<open>2 ^ (e - 52)\<close>. The examples round to the nearest multiple of \<open>1 / 2 ^ k\<close>:
  with \<open>k = 49\<close> that is the nearest double of a number between 8 and 16, with
  \<open>k = 50\<close> of a number between 4 and 8 (no example is half way between two
  multiples).
\<close>

definition nearest_multiple :: "nat \<Rightarrow> rat \<Rightarrow> rat" where
  "nearest_multiple k q = of_int (round (q * 2 ^ k)) / 2 ^ k"

definition ann :: ObjectId where
  "ann = ObjectId [1, 1, 1, 1, 1, 1, 1, 1, 1, 1, 1, 1]"

definition bob :: ObjectId where
  "bob = ObjectId [2, 2, 2, 2, 2, 2, 2, 2, 2, 2, 2, 2]"

definition cy :: ObjectId where
  "cy = ObjectId [3, 3, 3, 3, 3, 3, 3, 3, 3, 3, 3, 3]"

definition match_id1 :: ObjectId where
  "match_id1 = ObjectId [9, 0, 0, 0, 0, 0, 0, 0, 0, 0, 0, 1]"

definition match_id2 :: ObjectId where
  "match_id2 = ObjectId [9, 0, 0, 0, 0, 0, 0, 0, 0, 0, 0, 2]"

definition match_id3 :: ObjectId where
  "match_id3 = ObjectId [9, 0, 0, 0, 0, 0, 0, 0, 0, 0, 0, 3]"

definition example_match :: "ObjectId \<Rightarrow> ObjectId \<Rightarrow> ObjectId \<Rightarrow> int \<Rightarrow> match_doc" where
  "example_match i a b t =
     \<lparr>player_a_id = a, player_b_id = b, location = None, level = None,
      started_at = Some t, completed_at = None, match_doc_id = i\<rparr>"

definition example_point :: "byte \<Rightarrow> ObjectId \<Rightarrow> ObjectId \<Rightarrow> int \<Rightarrow> shot field \<Rightarrow> point_doc" where
  "example_point n m s r w =
     \<lparr>match_id = m, scorer_id = s, rally_length = r, winner_shot = w,
      unforced_error = False, point_notes = None,
      point_doc_id = ObjectId [7, 0, 0, 0, 0, 0, 0, 0, 0, 0, 0, n]\<rparr>"

definition example_db :: database where
  "example_db =
     \<lparr>player_coll =
        [\<lparr>name = ''Ann'', rating = Some 4, handedness = Some Left, player_doc_id = ann\<rparr>,
         \<lparr>name = ''Bob'', rating = None, handedness = None, player_doc_id = bob\<rparr>],
      match_coll =
        [example_match match_id2 bob cy 200,
         example_match match_id1 ann bob 100,
         example_match match_id3 ann cy 300],
      point_coll =
        [example_point 1 match_id1 ann 3 (Present Dink),
         example_point 2 match_id1 bob 4 (Present Smash),
         example_point 3 match_id1 ann 5 Absent,
         example_point 4 match_id1 bob 6 Absent,
         example_point 5 match_id1 bob 2 (Present Dink),
         example_point 6 match_id2 bob 10 (Present Lob),
         example_point 7 match_id2 bob 8 Null,
         example_point 8 match_id3 ann 7 (Present Dink)]\<rparr>"

section \<open>Properties\<close>

subsection \<open>The identifier codec\<close>

lemma hex_value_digit:
  assumes "c \<in> set ''0123456789''"
  shows "hex_value c = Some (of_char c - 48) \<and> (of_char c - 48 :: nat) < 16 \<and>
     hex_char (of_char c - 48) = lower c \<and> \<not> is_space c"
proof -
  from assms consider "c = CHR ''0''" | "c = CHR ''1''" | "c = CHR ''2''" | "c = CHR ''3''" | "c = CHR ''4''" | "c = CHR ''5''" | "c = CHR ''6''" | "c = CHR ''7''" | "c = CHR ''8''" | "c = CHR ''9''"
    by (simp only: list.set insert_iff empty_iff) blast
  then show ?thesis
    by cases (simp_all add: hex_value_def hex_char_def lower_def is_space_def)
qed

lemma hex_value_lower_letter:
  assumes "c \<in> set ''abcdef''"
  shows "hex_value c = Some (of_char c - 87) \<and> (of_char c - 87 :: nat) < 16 \<and>
     hex_char (of_char c - 87) = lower c \<and> \<not> is_space c"
proof -
  from assms consider "c = CHR ''a''" | "c = CHR ''b''" | "c = CHR ''c''" | "c = CHR ''d''" | "c = CHR ''e''" | "c = CHR ''f''"
    by (simp only: list.set insert_iff empty_iff) blast
  then show ?thesis
    by cases (simp_all add: hex_value_def hex_char_def lower_def is_space_def)
qed

lemma hex_value_upper_letter:
  assumes "c \<in> set ''ABCDEF''"
  shows "hex_value c = Some (of_char c - 55) \<and> (of_char c - 55 :: nat) < 16 \<and>
     hex_char (of_char c - 55) = lower c \<and> \<not> is_space c"
proof -
  from assms consider "c = CHR ''A''" | "c = CHR ''B''" | "c = CHR ''C''" | "c = CHR ''D''" | "c = CHR ''E''" | "c = CHR ''F''"
    by (simp only: list.set insert_iff empty_iff) blast
  then show ?thesis
    by cases (simp_all add: hex_value_def hex_char_def lower_def is_space_def)
qed

lemma hex_value_cases:
  assumes "hex_value c = Some n"
  shows "c \<in> set ''0123456789'' \<or> c \<in> set ''abcdef'' \<or> c \<in> set ''ABCDEF''"
  using assms unfolding hex_value_def
  by (cases "c \<in> set ''0123456789''"; cases "c \<in> set ''abcdef''"; cases "c \<in> set ''ABCDEF''")
     simp_all

lemma hex_value_lower:
  assumes "hex_value c = Some n"
  shows "n < 16 \<and> hex_char n = lower c \<and> \<not> is_space c"
proof -
  from hex_value_cases[OF assms]
  consider "c \<in> set ''0123456789''" | "c \<in> set ''abcdef''" | "c \<in> set ''ABCDEF''"
    by blast
  then show ?thesis
  proof cases
    case 1
    from hex_value_digit[OF 1] assms show ?thesis by simp
  next
    case 2
    from hex_value_lower_letter[OF 2] assms show ?thesis by simp
  next
    case 3
    from hex_value_upper_letter[OF 3] assms show ?thesis by simp
  qed
qed

lemma byte_of_digits:
  assumes "hi < 16" "lo < 16"
  shows "unat (of_nat (16 * hi + lo) :: byte) = 16 * hi + lo"
proof -
  have "16 * hi + lo < 256" using assms by arith
  then show ?thesis by (simp only: unat_of_nat) simp
qed

lemma hexlify_Cons:
  "hexlify (b # bs) = hex_char (unat b div 16) # hex_char (unat b mod 16) # hexlify bs"
  by (simp add: hexlify_def)

lemma fromhex_digits:
  "\<forall>c\<in>set s. hex_value c \<noteq> None \<Longrightarrow> even (length s)
   \<Longrightarrow> \<exists>bs. fromhex s = Some bs \<and> hexlify bs = map lower s \<and> 2 * length bs = length s"
proof (induction s rule: induct_list012)
  case 1
  then show ?case by (simp add: hexlify_def)
next
  case (2 x)
  then show ?case by simp
next
  case (3 c d ds)
  from "3.prems" obtain hi lo where hl: "hex_value c = Some hi" "hex_value d = Some lo"
    by auto
  from "3.prems" "3.IH"(1) obtain bs where bs: "fromhex ds = Some bs" "hexlify bs = map lower ds"
     "2 * length bs = length ds"
    by auto
  note H = hex_value_lower[OF hl(1)] hex_value_lower[OF hl(2)]
  have u: "unat (of_nat (16 * hi + lo) :: byte) = 16 * hi + lo"
    using H by (intro byte_of_digits) auto
  have "fromhex (c # d # ds) = Some (of_nat (16 * hi + lo) # bs)"
    using hl bs H by simp
  moreover have "hexlify (of_nat (16 * hi + lo) # bs) = map lower (c # d # ds)"
    unfolding hexlify_Cons u using bs H by simp
  ultimately show ?case using bs by auto
qed

lemma fromhex_bad_char:
  "c \<in> set s \<Longrightarrow> hex_value c = None \<Longrightarrow> \<not> is_space c \<Longrightarrow> fromhex s = None"
proof (induction s rule: fromhex.induct)
  case 1
  then show ?case by simp
next
  case (2 x xs)
  show ?case
  proof (cases "is_space x")
    case True
    with 2 show ?thesis by auto
  next
    case sp: False
    show ?thesis
    proof (cases xs)
      case Nil
      with sp show ?thesis by simp
    next
      case (Cons d ds)
      show ?thesis
      proof (cases "hex_value x")
        case None
        with sp Cons show ?thesis by simp
      next
        case hx: (Some hi)
        show ?thesis
        proof (cases "hex_value d")
          case None
          with sp Cons hx show ?thesis by simp
        next
          case hd: (Some lo)
          from 2(4) hx hd Cons "2.prems" have "c \<in> set ds" by auto
          with "2.IH"(2)[OF sp Cons refl hx hd] "2.prems" have "fromhex ds = None" by simp
          with sp Cons hx hd show ?thesis by simp
        qed
      qed
    qed
  qed
qed

lemma lower_digit:
  assumes "c \<in> set ''0123456789abcdef''"
  shows "lower c = c \<and> hex_value c \<noteq> None"
proof -
  from assms have "c \<in> set ''0123456789'' \<or> c \<in> set ''abcdef''" by auto
  then show ?thesis
  proof
    assume d: "c \<in> set ''0123456789''"
    from d consider "c = CHR ''0''" | "c = CHR ''1''" | "c = CHR ''2''" | "c = CHR ''3''" | "c = CHR ''4''" | "c = CHR ''5''" | "c = CHR ''6''" | "c = CHR ''7''" | "c = CHR ''8''" | "c = CHR ''9''"
      by (simp only: list.set insert_iff empty_iff) blast
    then have "lower c = c" by cases (simp_all add: lower_def)
    with hex_value_digit[OF d] show ?thesis by simp
  next
    assume d: "c \<in> set ''abcdef''"
    from d consider "c = CHR ''a''" | "c = CHR ''b''" | "c = CHR ''c''" | "c = CHR ''d''" | "c = CHR ''e''" | "c = CHR ''f''"
      by (simp only: list.set insert_iff empty_iff) blast
    then have "lower c = c" by cases (simp_all add: lower_def)
    with hex_value_lower_letter[OF d] show ?thesis by simp
  qed
qed

lemma oid_only_400: "oid s = Inl e \<Longrightarrow> e = HTTPException 400 ''Invalid ObjectId format''"
  by (auto simp: oid_def split: option.splits)

lemma fromhex_hex_pairs: "fromhex s \<noteq> None \<Longrightarrow> hex_pairs s"
proof (induction s rule: fromhex.induct)
  case 1
  show ?case by (rule hex_pairs.no_chars)
next
  case (2 c cs)
  show ?case
  proof (cases "is_space c")
    case True
    with "2.prems" have "fromhex cs \<noteq> None" by simp
    with "2.IH"(1)[OF True] have "hex_pairs cs" by simp
    with True show ?thesis by (rule hex_pairs.whitespace)
  next
    case sp: False
    show ?thesis
    proof (cases cs)
      case Nil
      with sp "2.prems" show ?thesis by simp
    next
      case (Cons d ds)
      from "2.prems" sp Cons obtain hi lo where
        h: "hex_value c = Some hi" "hex_value d = Some lo" and f: "fromhex ds \<noteq> None"
        by (auto split: option.splits)
      from "2.IH"(2)[OF sp Cons refl h] f have "hex_pairs ds" by simp
      with h have "hex_pairs (c # d # ds)" by (intro hex_pairs.digits) simp_all
      with Cons show ?thesis by simp
    qed
  qed
qed

lemma hex_pairs_fromhex: "hex_pairs s \<Longrightarrow> fromhex s \<noteq> None"
proof (induction rule: hex_pairs.induct)
  case no_chars
  show ?case by simp
next
  case (whitespace c s)
  then show ?case by simp
next
  case (digits c d s)
  then obtain hi lo where h: "hex_value c = Some hi" "hex_value d = Some lo" by auto
  from hex_value_lower[OF h(1)] have "\<not> is_space c" by simp
  with h digits show ?case by auto
qed

lemma hex_pairs_iff: "hex_pairs s = (fromhex s \<noteq> None)"
  using fromhex_hex_pairs hex_pairs_fromhex by blast

text \<open>
  Claim C6, as amended. A string of 24 lower-case hexadecimal digits decodes, and the
  identifier encodes back to the same string. A string of 24 hexadecimal digits of
  either case decodes to a 12-byte identifier, which encodes to the string in lower
  case. A string whose length is not 24, or that is not made of ASCII whitespace
  and pairs of adjacent hexadecimal digits, fails with the 400 error. (What is left
  out are the strings of 24 characters that hold whitespace beside pairs of digits.)
\<close>

theorem oid_decode_encode:
  "(length s = 24 \<and> set s \<subseteq> set ''0123456789abcdef''
      \<longrightarrow> (\<exists>i. oid s = Inr i \<and> str_ObjectId i = s))
   \<and> (length s = 24 \<and> (\<forall>c\<in>set s. hex_value c \<noteq> None)
      \<longrightarrow> (\<exists>i. oid s = Inr i \<and> length (binary i) = 12 \<and> str_ObjectId i = map lower s))
   \<and> (length s \<noteq> 24 \<or> \<not> hex_pairs s
      \<longrightarrow> oid s = Inl (HTTPException 400 ''Invalid ObjectId format'')
          \<and> http_status (HTTPException 400 ''Invalid ObjectId format'') = 400)"
proof (intro conjI impI)
  assume a: "length s = 24 \<and> (\<forall>c\<in>set s. hex_value c \<noteq> None)"
  then obtain bs where bs: "fromhex s = Some bs" "hexlify bs = map lower s" "2 * length bs = length s"
    using fromhex_digits[of s] by auto
  with a show "\<exists>i. oid s = Inr i \<and> length (binary i) = 12 \<and> str_ObjectId i = map lower s"
    by (simp add: oid_def ObjectId_of_str_def str_ObjectId_def)
next
  assume a: "length s = 24 \<and> set s \<subseteq> set ''0123456789abcdef''"
  then have d: "\<forall>c\<in>set s. lower c = c \<and> hex_value c \<noteq> None"
    using lower_digit by blast
  then obtain bs where bs: "fromhex s = Some bs" "hexlify bs = map lower s"
    using fromhex_digits[of s] a by auto
  from d have "map lower s = s" by (simp add: map_idI)
  with a bs show "\<exists>i. oid s = Inr i \<and> str_ObjectId i = s"
    by (simp add: oid_def ObjectId_of_str_def str_ObjectId_def)
next
  assume a: "length s \<noteq> 24 \<or> \<not> hex_pairs s"
  then have "ObjectId_of_str s = None"
    by (auto simp: ObjectId_of_str_def hex_pairs_iff)
  then show "oid s = Inl (HTTPException 400 ''Invalid ObjectId format'')"
    by (simp add: oid_def)
next
  show "http_status (HTTPException 400 ''Invalid ObjectId format'') = 400" by simp
qed

text \<open>
  The witness: 24 digits in lower case and in upper case; a string of 23 digits; a
  string of 24 characters with a letter that is no digit; and strings of 24
  characters with a blank inside a pair of digits and in front of a single last
  digit.
\<close>

theorem oid_decode_encode_witness:
  "(\<exists>i. oid ''507f1f77bcf86cd799439011'' = Inr i \<and> str_ObjectId i = ''507f1f77bcf86cd799439011'')
   \<and> (\<exists>i. oid ''507F1F77BCF86CD799439011'' = Inr i \<and> length (binary i) = 12
          \<and> str_ObjectId i = ''507f1f77bcf86cd799439011'')
   \<and> oid ''507f1f77bcf86cd79943901'' = Inl (HTTPException 400 ''Invalid ObjectId format'')
   \<and> oid ''507f1f77bcf86cd79943901g'' = Inl (HTTPException 400 ''Invalid ObjectId format'')
   \<and> oid ''507f1f77bcf86cd7994390 1'' = Inl (HTTPException 400 ''Invalid ObjectId format'')
   \<and> oid ''5 07f1f77bcf86cd79943901'' = Inl (HTTPException 400 ''Invalid ObjectId format'')"
proof -
  have l: "map lower ''507F1F77BCF86CD799439011'' = ''507f1f77bcf86cd799439011''"
    by (simp add: lower_def)
  have h: "\<forall>c\<in>set ''507F1F77BCF86CD799439011''. hex_value c \<noteq> None"
    by (simp add: hex_value_def)
  have g: "\<not> hex_pairs ''507f1f77bcf86cd79943901g''"
    "\<not> hex_pairs ''507f1f77bcf86cd7994390 1''"
    "\<not> hex_pairs ''5 07f1f77bcf86cd79943901''"
    by (simp_all add: hex_pairs_iff hex_value_def is_space_def)
  show ?thesis
    using oid_decode_encode[of "''507f1f77bcf86cd799439011''"]
      oid_decode_encode[of "''507F1F77BCF86CD799439011''"]
      oid_decode_encode[of "''507f1f77bcf86cd79943901''"]
      oid_decode_encode[of "''507f1f77bcf86cd79943901g''"]
      oid_decode_encode[of "''507f1f77bcf86cd7994390 1''"]
      oid_decode_encode[of "''5 07f1f77bcf86cd79943901''"] l h g
    by simp
qed

text \<open>
  The claim as stated fails at 24 upper-case digits: the string decodes, and what it
  encodes back to is another string.
\<close>

theorem oid_upper_case_counterexample:
  "oid ''AAAAAAAAAAAAAAAAAAAAAAAA'' = Inr (ObjectId [170, 170, 170, 170, 170, 170, 170, 170, 170, 170, 170, 170])
   \<and> str_ObjectId (ObjectId [170, 170, 170, 170, 170, 170, 170, 170, 170, 170, 170, 170])
       = ''aaaaaaaaaaaaaaaaaaaaaaaa''
   \<and> ''aaaaaaaaaaaaaaaaaaaaaaaa'' \<noteq> ''AAAAAAAAAAAAAAAAAAAAAAAA''"
  by (simp add: oid_def ObjectId_of_str_def str_ObjectId_def hexlify_def hex_char_def
      is_space_def hex_value_def)

text \<open>
  The strings the amended claim leaves out are accepted by a slip: \<open>oid\<close> hands the
  text to \<open>bytes.fromhex\<close>, which skips whitespace, so 24 blanks decode to an
  identifier of no bytes, which encodes to the empty string.
\<close>

lemma oid_whitespace_slip:
  "oid ''                        '' = Inr (ObjectId [])
   \<and> str_ObjectId (ObjectId []) = ''''"
  by (simp add: oid_def ObjectId_of_str_def str_ObjectId_def hexlify_def is_space_def)

subsection \<open>The serializer\<close>

lemma fold_setitem:
  assumes "r < length h"
  shows "fold (\<lambda>(k, v) h'. if P v then setitem h' r k (G v) else h') items h
       = h[r := fold (\<lambda>(k, v) e. if P v then AList.update k (G v) e else e) items (h ! r)]"
  using assms
proof (induction items arbitrary: h)
  case Nil
  then show ?case by simp
next
  case (Cons kv items)
  obtain k v where kv: "kv = (k, v)" by (cases kv)
  show ?case
  proof (cases "P v")
    case True
    have l: "r < length (setitem h r k (G v))" using Cons.prems by (simp add: setitem_def)
    show ?thesis
      using Cons.IH[OF l] Cons.prems True kv by (simp add: setitem_def)
  next
    case False
    then show ?thesis using Cons.IH[OF Cons.prems] kv by simp
  qed
qed

lemma fold_update_keys:
  "set (map fst items) \<subseteq> set (map fst e) \<Longrightarrow>
   map fst (fold (\<lambda>(k, v) e. if P v then AList.update k (G v) e else e) items e) = map fst e"
proof (induction items arbitrary: e)
  case Nil
  then show ?case by simp
next
  case (Cons kv items)
  obtain k v where kv: "kv = (k, v)" by (cases kv)
  from Cons.prems kv have k: "k \<in> set (map fst e)" by simp
  then have u: "map fst (AList.update k (G v) e) = map fst e" by (simp add: update_keys)
  show ?case
  proof (cases "P v")
    case True
    from Cons.prems u have "set (map fst items) \<subseteq> set (map fst (AList.update k (G v) e))" by simp
    from Cons.IH[OF this] True kv u show ?thesis by simp
  next
    case False
    from Cons.prems have "set (map fst items) \<subseteq> set (map fst e)" by simp
    from Cons.IH[OF this] False kv show ?thesis by simp
  qed
qed

lemma fold_update_map_of:
  "distinct (map fst items) \<Longrightarrow>
   map_of (fold (\<lambda>(k, v) e. if P v then AList.update k (G v) e else e) items e) x
   = (case map_of items x of
        Some v \<Rightarrow> if P v then Some (G v) else map_of e x
      | None \<Rightarrow> map_of e x)"
proof (induction items arbitrary: e)
  case Nil
  then show ?case by simp
next
  case (Cons kv items)
  obtain k v where kv: "kv = (k, v)" by (cases kv)
  from Cons.prems kv have d: "distinct (map fst items)" and n: "k \<notin> fst ` set items" by simp_all
  from n have mk: "map_of items k = None" by (simp add: map_of_eq_None_iff)
  show ?case
  proof (cases "P v")
    case True
    show ?thesis
      using Cons.IH[OF d, of "AList.update k (G v) e"] True kv mk
      by (auto simp: update_conv' split: option.splits)
  next
    case False
    show ?thesis
      using Cons.IH[OF d, of e] False kv mk
      by (auto split: option.splits)
  qed
qed

lemma fold_own_items:
  assumes "distinct (map fst e)"
  shows "map_of (fold (\<lambda>(k, v) e. if P v then AList.update k (G v) e else e) e e) x
       = map_option (\<lambda>v. if P v then G v else v) (map_of e x)"
  unfolding fold_update_map_of[OF assms]
  by (cases "map_of e x") simp_all

lemma to_serializable_result:
  assumes "doc < length h"
  shows "to_serializable str_other h doc =
     (h @ [fold (\<lambda>(k, v) e. if isinstance_ObjectId v
                              then AList.update k (VStr (py_str str_other v)) e else e)
             (case map_of (h ! doc) ''_id'' of
                None \<Rightarrow> h ! doc
              | Some VNone \<Rightarrow> h ! doc
              | Some v \<Rightarrow> AList.update ''id'' (VStr (py_str str_other v))
                            (AList.delete ''_id'' (h ! doc)))
             (case map_of (h ! doc) ''_id'' of
                None \<Rightarrow> h ! doc
              | Some VNone \<Rightarrow> h ! doc
              | Some v \<Rightarrow> AList.update ''id'' (VStr (py_str str_other v))
                            (AList.delete ''_id'' (h ! doc)))],
      length h)"
proof -
  let ?d = "h ! doc"
  let ?d2 = "case map_of ?d ''_id'' of
                None \<Rightarrow> ?d
              | Some VNone \<Rightarrow> ?d
              | Some v \<Rightarrow> AList.update ''id'' (VStr (py_str str_other v)) (AList.delete ''_id'' ?d)"
  let ?h2 = "case map_of ((h @ [?d]) ! length h) ''_id'' of
                  None \<Rightarrow> h @ [?d]
                | Some VNone \<Rightarrow> h @ [?d]
                | Some v \<Rightarrow> setitem (pop (h @ [?d]) (length h) ''_id'') (length h) ''id''
                             (VStr (py_str str_other v))"
  have h2: "?h2 = h @ [?d2]"
    by (simp add: setitem_def pop_def split: option.splits val.splits)
  have r: "length h < length (h @ [?d2])" by simp
  have "to_serializable str_other h doc =
      (fold (\<lambda>(k, v) h'. if isinstance_ObjectId v
                          then setitem h' (length h) k (VStr (py_str str_other v)) else h')
         (?h2 ! length h) ?h2, length h)"
    by (simp add: to_serializable_def new_dict_def Let_def)
  also have "\<dots> = ((h @ [?d2])[length h := fold (\<lambda>(k, v) e. if isinstance_ObjectId v
                              then AList.update k (VStr (py_str str_other v)) e else e) ?d2 ?d2],
       length h)"
    unfolding h2 fold_setitem[OF r] by simp
  finally show ?thesis by simp
qed

lemma stringify_fold:
  assumes "distinct (map fst e)"
  shows "map_of (fold (\<lambda>(k, v) e. if isinstance_ObjectId v
                              then AList.update k (VStr (py_str str_other v)) e else e) e e) x
       = map_option (stringified str_other) (map_of e x)"
    and "map fst (fold (\<lambda>(k, v) e. if isinstance_ObjectId v
                              then AList.update k (VStr (py_str str_other v)) e else e) e e)
       = map fst e"
proof -
  have "(\<lambda>v. if isinstance_ObjectId v then VStr (py_str str_other v) else v) = stringified str_other"
    by (rule ext) (simp add: stringified_def)
  with fold_own_items[OF assms, of isinstance_ObjectId "\<lambda>v. VStr (py_str str_other v)" x]
  show "map_of (fold (\<lambda>(k, v) e. if isinstance_ObjectId v
                              then AList.update k (VStr (py_str str_other v)) e else e) e e) x
       = map_option (stringified str_other) (map_of e x)"
    by simp
  show "map fst (fold (\<lambda>(k, v) e. if isinstance_ObjectId v
                              then AList.update k (VStr (py_str str_other v)) e else e) e e)
       = map fst e"
    by (rule fold_update_keys) simp
qed

lemma stringified_VStr: "stringified str_other (VStr s) = VStr s"
  by (simp add: stringified_def isinstance_ObjectId_def)

lemma id_keys:
  "filter (\<lambda>k. k \<noteq> ''id'') (map fst (AList.update ''id'' v (AList.delete ''_id'' d)))
   = filter (\<lambda>k. k \<noteq> ''_id'' \<and> k \<noteq> ''id'') (map fst d)"
proof -
  have "filter (\<lambda>k. k \<noteq> ''id'') (removeAll ''_id'' ks)
      = filter (\<lambda>k. k \<noteq> ''_id'' \<and> k \<noteq> ''id'') ks" for ks :: "string list"
    by (induction ks) auto
  then show ?thesis by (simp add: update_keys delete_keys)
qed

lemma id_position:
  "map fst (AList.update ''id'' v (AList.delete ''_id'' d)) =
     (if ''id'' \<in> set (map fst d)
      then filter (\<lambda>k. k \<noteq> ''_id'') (map fst d)
      else filter (\<lambda>k. k \<noteq> ''_id'') (map fst d) @ [''id''])"
proof -
  have "removeAll ''_id'' ks = filter (\<lambda>k. k \<noteq> ''_id'') ks" for ks :: "string list"
    by (induction ks) auto
  then show ?thesis by (simp add: update_keys delete_keys)
qed

lemma to_serializable_props:
  assumes "doc < length h" and "distinct (map fst (h ! doc))"
  shows "\<exists>h' r. to_serializable str_other h doc = (h', r)
     \<and> r = length h \<and> length h' = Suc (length h) \<and> (\<forall>a<length h. h' ! a = h ! a)
     \<and> distinct (map fst (h' ! r))
     \<and> (\<forall>v. map_of (h ! doc) ''_id'' = Some v \<and> v \<noteq> VNone \<longrightarrow>
           map_of (h' ! r) ''_id'' = None
         \<and> map_of (h' ! r) ''id'' = Some (VStr (py_str str_other v))
         \<and> (\<forall>k. k \<noteq> ''_id'' \<and> k \<noteq> ''id'' \<longrightarrow>
                map_of (h' ! r) k = map_option (stringified str_other) (map_of (h ! doc) k))
         \<and> filter (\<lambda>k. k \<noteq> ''id'') (map fst (h' ! r))
             = filter (\<lambda>k. k \<noteq> ''_id'' \<and> k \<noteq> ''id'') (map fst (h ! doc))
         \<and> map fst (h' ! r) =
             (if ''id'' \<in> set (map fst (h ! doc))
              then filter (\<lambda>k. k \<noteq> ''_id'') (map fst (h ! doc))
              else filter (\<lambda>k. k \<noteq> ''_id'') (map fst (h ! doc)) @ [''id'']))
     \<and> (map_of (h ! doc) ''_id'' = None \<or> map_of (h ! doc) ''_id'' = Some VNone \<longrightarrow>
           (\<forall>k. map_of (h' ! r) k = map_option (stringified str_other) (map_of (h ! doc) k))
         \<and> map fst (h' ! r) = map fst (h ! doc))"
proof -
  let ?d = "h ! doc"
  define d2 where "d2 = (case map_of ?d ''_id'' of
                None \<Rightarrow> ?d
              | Some VNone \<Rightarrow> ?d
              | Some v \<Rightarrow> AList.update ''id'' (VStr (py_str str_other v)) (AList.delete ''_id'' ?d))"
  define res where "res = fold (\<lambda>(k, v) e. if isinstance_ObjectId v
                              then AList.update k (VStr (py_str str_other v)) e else e) d2 d2"
  have res: "to_serializable str_other h doc = (h @ [res], length h)"
    unfolding res_def d2_def by (rule to_serializable_result[OF assms(1)])
  have d2: "distinct (map fst d2)"
    unfolding d2_def using assms(2)
    by (simp add: distinct_update distinct_delete split: option.splits val.splits)
  have sf: "map_of res x = map_option (stringified str_other) (map_of d2 x)"
    "map fst res = map fst d2" for x
    unfolding res_def by (rule stringify_fold[OF d2])+
  have dr: "distinct (map fst res)" using d2 sf(2) by simp
  have A: "map_of res ''_id'' = None
         \<and> map_of res ''id'' = Some (VStr (py_str str_other v))
         \<and> (\<forall>k. k \<noteq> ''_id'' \<and> k \<noteq> ''id'' \<longrightarrow>
                map_of res k = map_option (stringified str_other) (map_of ?d k))
         \<and> filter (\<lambda>k. k \<noteq> ''id'') (map fst res)
             = filter (\<lambda>k. k \<noteq> ''_id'' \<and> k \<noteq> ''id'') (map fst ?d)
         \<and> map fst res =
             (if ''id'' \<in> set (map fst ?d)
              then filter (\<lambda>k. k \<noteq> ''_id'') (map fst ?d)
              else filter (\<lambda>k. k \<noteq> ''_id'') (map fst ?d) @ [''id''])"
    if v: "map_of ?d ''_id'' = Some v \<and> v \<noteq> VNone" for v
  proof -
    from v have e: "d2 = AList.update ''id'' (VStr (py_str str_other v)) (AList.delete ''_id'' ?d)"
      unfolding d2_def by (cases v) simp_all
    have m: "map_of d2 = ((map_of ?d)(''_id'' := None))(''id'' \<mapsto> VStr (py_str str_other v))"
      unfolding e by (simp add: update_conv' delete_conv')
    show ?thesis
      unfolding sf m unfolding e id_keys id_position by (simp add: stringified_VStr)
  qed
  have B: "(\<forall>k. map_of res k = map_option (stringified str_other) (map_of ?d k))
         \<and> map fst res = map fst ?d"
    if n: "map_of ?d ''_id'' = None \<or> map_of ?d ''_id'' = Some VNone"
  proof -
    from n have e: "d2 = ?d" unfolding d2_def by auto
    show ?thesis unfolding sf unfolding e by simp
  qed
  have l: "(h @ [res]) ! length h = res" by simp
  have F: "\<forall>a<length h. (h @ [res]) ! a = h ! a" by (simp add: nth_append)
  have A': "\<forall>v. map_of ?d ''_id'' = Some v \<and> v \<noteq> VNone \<longrightarrow>
           map_of res ''_id'' = None
         \<and> map_of res ''id'' = Some (VStr (py_str str_other v))
         \<and> (\<forall>k. k \<noteq> ''_id'' \<and> k \<noteq> ''id'' \<longrightarrow>
                map_of res k = map_option (stringified str_other) (map_of ?d k))
         \<and> filter (\<lambda>k. k \<noteq> ''id'') (map fst res)
             = filter (\<lambda>k. k \<noteq> ''_id'' \<and> k \<noteq> ''id'') (map fst ?d)
         \<and> map fst res =
             (if ''id'' \<in> set (map fst ?d)
              then filter (\<lambda>k. k \<noteq> ''_id'') (map fst ?d)
              else filter (\<lambda>k. k \<noteq> ''_id'') (map fst ?d) @ [''id''])"
    by (intro allI impI) (rule A)
  have B': "map_of ?d ''_id'' = None \<or> map_of ?d ''_id'' = Some VNone \<longrightarrow>
           (\<forall>k. map_of res k = map_option (stringified str_other) (map_of ?d k))
         \<and> map fst res = map fst ?d"
    by (intro impI) (rule B)
  show ?thesis
    apply (rule exI[of _ "h @ [res]"], rule exI[of _ "length h"])
    apply (unfold l)
    apply (intro conjI)
          apply (rule res)
         apply (rule refl)
        apply simp
       apply (rule F)
      apply (rule dr)
     apply (rule A')
    apply (rule B')
    done
qed

text \<open>
  Claim C8, as amended. \<open>to_serializable\<close> writes to no object that was there
  before the call: it returns a reference to a new dict. When the document has an
  \<open>_id\<close> other than \<open>None\<close>, the new dict has no \<open>_id\<close>, its \<open>id\<close> is the
  string of that value, every other field holds the stringified value of the
  document's field, and the other keys keep their order; \<open>id\<close> stands where the
  document had an \<open>id\<close>, and is the last key when it had none. When \<open>_id\<close> is absent or
  \<open>None\<close>, no \<open>id\<close> is added and an \<open>_id\<close> entry of \<open>None\<close> stays: the new dict
  has the keys of the document in their order, each with the stringified value.
\<close>

theorem to_serializable_copy:
  assumes "doc < length h" and "distinct (map fst (h ! doc))"
  shows "\<exists>h' r. to_serializable str_other h doc = (h', r)
     \<and> r = length h \<and> length h' = Suc (length h) \<and> (\<forall>a<length h. h' ! a = h ! a)
     \<and> distinct (map fst (h' ! r))
     \<and> (\<forall>v. map_of (h ! doc) ''_id'' = Some v \<and> v \<noteq> VNone \<longrightarrow>
           map_of (h' ! r) ''_id'' = None
         \<and> map_of (h' ! r) ''id'' = Some (VStr (py_str str_other v))
         \<and> (\<forall>k. k \<noteq> ''_id'' \<and> k \<noteq> ''id'' \<longrightarrow>
                map_of (h' ! r) k = map_option (stringified str_other) (map_of (h ! doc) k))
         \<and> filter (\<lambda>k. k \<noteq> ''id'') (map fst (h' ! r))
             = filter (\<lambda>k. k \<noteq> ''_id'' \<and> k \<noteq> ''id'') (map fst (h ! doc))
         \<and> map fst (h' ! r) =
             (if ''id'' \<in> set (map fst (h ! doc))
              then filter (\<lambda>k. k \<noteq> ''_id'') (map fst (h ! doc))
              else filter (\<lambda>k. k \<noteq> ''_id'') (map fst (h ! doc)) @ [''id'']))
     \<and> (map_of (h ! doc) ''_id'' = None \<or> map_of (h ! doc) ''_id'' = Some VNone \<longrightarrow>
           (\<forall>k. map_of (h' ! r) k = map_option (stringified str_other) (map_of (h ! doc) k))
         \<and> map fst (h' ! r) = map fst (h ! doc))"
  using assms by (rule to_serializable_props)

text \<open>
  The witness: a document with \<open>_id\<close> and no \<open>id\<close> (the \<open>id\<close> is appended), a
  document with \<open>_id\<close> and an \<open>id\<close> of its own (the \<open>id\<close> is overwritten where it
  stands), and a document whose \<open>_id\<close> is \<open>None\<close>.
\<close>

theorem to_serializable_copy_witness:
  "(\<exists>h' r. to_serializable (\<lambda>x::scalar. ''4.0'')
             [[(''_id'', VObjectId ann), (''name'', VStr ''Ann''), (''friend'', VObjectId bob),
               (''rating'', VOther (SFloat 4))]] 0 = (h', r)
       \<and> r = 1
       \<and> h' ! 0 = [(''_id'', VObjectId ann), (''name'', VStr ''Ann''), (''friend'', VObjectId bob),
                   (''rating'', VOther (SFloat 4))]
       \<and> map_of (h' ! r) ''_id'' = None
       \<and> map_of (h' ! r) ''id'' = Some (VStr ''010101010101010101010101'')
       \<and> map_of (h' ! r) ''friend'' = Some (VStr ''020202020202020202020202'')
       \<and> map_of (h' ! r) ''rating'' = Some (VOther (SFloat 4))
       \<and> map fst (h' ! r) = [''name'', ''friend'', ''rating'', ''id''])
   \<and> (\<exists>h' r. to_serializable (\<lambda>x::scalar. ''4.0'')
             [[(''a'', VStr ''x''), (''id'', VOther (SInt 5)), (''_id'', VObjectId ann),
               (''z'', VNone)]] 0 = (h', r)
       \<and> map_of (h' ! r) ''id'' = Some (VStr ''010101010101010101010101'')
       \<and> map fst (h' ! r) = [''a'', ''id'', ''z''])
   \<and> (\<exists>h' r. to_serializable (\<lambda>x::scalar. ''4.0'')
             [[(''_id'', VNone), (''name'', VStr ''Ann''), (''friend'', VObjectId bob)]] 0 = (h', r)
       \<and> map_of (h' ! r) ''friend'' = Some (VStr ''020202020202020202020202'')
       \<and> map fst (h' ! r) = [''_id'', ''name'', ''friend''])"
proof -
  let ?str = "\<lambda>x::scalar. ''4.0''"
  let ?H = "[[(''_id'', VObjectId ann), (''name'', VStr ''Ann''), (''friend'', VObjectId bob),
               (''rating'', VOther (SFloat 4))]] :: scalar heap"
  let ?J = "[[(''a'', VStr ''x''), (''id'', VOther (SInt 5)), (''_id'', VObjectId ann),
               (''z'', VNone)]] :: scalar heap"
  let ?K = "[[(''_id'', VNone), (''name'', VStr ''Ann''), (''friend'', VObjectId bob)]] :: scalar heap"
  have preH: "0 < length ?H" "distinct (map fst (?H ! 0))" by simp_all
  have preJ: "0 < length ?J" "distinct (map fst (?J ! 0))" by simp_all
  have preK: "0 < length ?K" "distinct (map fst (?K ! 0))" by simp_all
  have H: "to_serializable ?str ?H 0 =
      (?H @ [[(''name'', VStr ''Ann''), (''friend'', VStr ''020202020202020202020202''),
              (''rating'', VOther (SFloat 4)), (''id'', VStr ''010101010101010101010101'')]], 1)"
    by code_simp
  have J: "to_serializable ?str ?J 0 =
      (?J @ [[(''a'', VStr ''x''), (''id'', VStr ''010101010101010101010101''),
              (''z'', VNone)]], 1)"
    by code_simp
  have K: "to_serializable ?str ?K 0 =
      (?K @ [[(''_id'', VNone), (''name'', VStr ''Ann''),
              (''friend'', VStr ''020202020202020202020202'')]], 1)"
    by code_simp
  show ?thesis
    using to_serializable_copy[OF preH, of ?str] to_serializable_copy[OF preJ, of ?str]
      to_serializable_copy[OF preK, of ?str]
    unfolding H J K by simp
qed

text \<open>
  The claim as stated fails at a document whose \<open>_id\<close> is \<open>None\<close>: the copy keeps
  \<open>_id\<close> and gets no \<open>id\<close>.
\<close>

theorem to_serializable_null_id_counterexample:
  "to_serializable (\<lambda>x::scalar. ''4.0'') [[(''_id'', VNone), (''name'', VStr ''Ann'')]] 0
   = ([[(''_id'', VNone), (''name'', VStr ''Ann'')], [(''_id'', VNone), (''name'', VStr ''Ann'')]], 1)
   \<and> map_of [(''_id'', VNone :: scalar val), (''name'', VStr ''Ann'')] ''id'' = None
   \<and> map_of [(''_id'', VNone :: scalar val), (''name'', VStr ''Ann'')] ''_id'' = Some VNone"
  by (simp add: to_serializable_def new_dict_def isinstance_ObjectId_def)

subsection \<open>The availability check\<close>

text \<open>
  Claim C7. With no database configured, each of the seven handlers that use the
  database raises the 500 error with the message "Database not configured"; the
  result is the error alone, no database is returned.
\<close>

theorem database_not_configured:
  "create_player None p new_id = Inl (HTTPException 500 ''Database not configured'')
   \<and> list_players str_other None = Inl (HTTPException 500 ''Database not configured'')
   \<and> create_match None m new_id = Inl (HTTPException 500 ''Database not configured'')
   \<and> recent_matches str_other None limit = Inl (HTTPException 500 ''Database not configured'')
   \<and> create_point None pt new_id = Inl (HTTPException 500 ''Database not configured'')
   \<and> leaderboard double None limit = Inl (HTTPException 500 ''Database not configured'')
   \<and> player_analytics double None player_id = Inl (HTTPException 500 ''Database not configured'')
   \<and> http_status (HTTPException 500 ''Database not configured'') = 500"
  by (simp add: create_player_def list_players_def create_match_def recent_matches_def
      create_point_def leaderboard_def player_analytics_def not_configured_def)

theorem database_not_configured_witness:
  "create_player None \<lparr>name = ''Ann'', rating = None, handedness = None\<rparr> (ObjectId [])
     = Inl (HTTPException 500 ''Database not configured'')
   \<and> list_players (\<lambda>x. []) None = Inl (HTTPException 500 ''Database not configured'')
   \<and> recent_matches (\<lambda>x. []) None 10 = Inl (HTTPException 500 ''Database not configured'')
   \<and> leaderboard (nearest_multiple 49) None 10 = Inl (HTTPException 500 ''Database not configured'')
   \<and> player_analytics (nearest_multiple 49) None ''507f1f77bcf86cd799439011''
     = Inl (HTTPException 500 ''Database not configured'')"
  using database_not_configured[where p = "\<lparr>name = ''Ann'', rating = None, handedness = None\<rparr>"
      and new_id = "ObjectId []" and str_other = "\<lambda>x. []" and limit = 10
      and double = "nearest_multiple 49" and player_id = "''507f1f77bcf86cd799439011''"]
  by simp

lemma oid_cases:
  "(\<exists>i. oid s = Inr i) \<or> oid s = Inl (HTTPException 400 ''Invalid ObjectId format'')"
  by (simp add: oid_def split: option.splits)

text \<open>
  Claim C10. In \<open>create_match\<close> and \<open>create_point\<close> the check of the database comes
  before the identifiers are decoded: with no database the answer is the 500 error
  for every request, never the 400 error, although the same request with a malformed
  identifier gets the 400 error once a database is there.
\<close>

theorem availability_before_decoding:
  "create_match None m new_id = Inl (HTTPException 500 ''Database not configured'')
   \<and> create_point None pt new_id = Inl (HTTPException 500 ''Database not configured'')
   \<and> create_match None m new_id \<noteq> Inl (HTTPException 400 ''Invalid ObjectId format'')
   \<and> create_point None pt new_id \<noteq> Inl (HTTPException 400 ''Invalid ObjectId format'')
   \<and> ((\<forall>i. oid (player_a_id m) \<noteq> Inr i) \<or> (\<forall>i. oid (player_b_id m) \<noteq> Inr i)
        \<longrightarrow> create_match (Some d) m new_id = Inl (HTTPException 400 ''Invalid ObjectId format''))
   \<and> ((\<forall>i. oid (match_id pt) \<noteq> Inr i) \<or> (\<forall>i. oid (scorer_id pt) \<noteq> Inr i)
        \<longrightarrow> create_point (Some d) pt new_id = Inl (HTTPException 400 ''Invalid ObjectId format''))"
proof -
  have a: "create_match (Some d) m new_id = Inl (HTTPException 400 ''Invalid ObjectId format'')"
    if "(\<forall>i. oid (player_a_id m) \<noteq> Inr i) \<or> (\<forall>i. oid (player_b_id m) \<noteq> Inr i)"
    using that oid_cases[of "player_a_id m"] oid_cases[of "player_b_id m"]
    by (auto simp: create_match_def)
  have b: "create_point (Some d) pt new_id = Inl (HTTPException 400 ''Invalid ObjectId format'')"
    if "(\<forall>i. oid (match_id pt) \<noteq> Inr i) \<or> (\<forall>i. oid (scorer_id pt) \<noteq> Inr i)"
    using that oid_cases[of "match_id pt"] oid_cases[of "scorer_id pt"]
    by (auto simp: create_point_def)
  show ?thesis using a b
    by (simp add: create_match_def create_point_def not_configured_def)
qed

theorem availability_before_decoding_witness:
  "create_match None
     \<lparr>player_a_id = ''not-an-id'', player_b_id = ''507f1f77bcf86cd799439011'',
       location = None, level = None, started_at = None, completed_at = None\<rparr> (ObjectId [])
     = Inl (HTTPException 500 ''Database not configured'')
   \<and> create_match (Some \<lparr>player_coll = [], match_coll = [], point_coll = []\<rparr>)
     \<lparr>player_a_id = ''not-an-id'', player_b_id = ''507f1f77bcf86cd799439011'',
       location = None, level = None, started_at = None, completed_at = None\<rparr> (ObjectId [])
     = Inl (HTTPException 400 ''Invalid ObjectId format'')
   \<and> create_point None
     \<lparr>match_id = ''507f1f77bcf86cd799439011'', scorer_id = ''xyz'', rally_length = 3,
       winner_shot = None, unforced_error = False, point_notes = None\<rparr> (ObjectId [])
     = Inl (HTTPException 500 ''Database not configured'')
   \<and> create_point (Some \<lparr>player_coll = [], match_coll = [], point_coll = []\<rparr>)
     \<lparr>match_id = ''507f1f77bcf86cd799439011'', scorer_id = ''xyz'', rally_length = 3,
       winner_shot = None, unforced_error = False, point_notes = None\<rparr> (ObjectId [])
     = Inl (HTTPException 400 ''Invalid ObjectId format'')"
proof -
  have 1: "\<forall>i. oid ''not-an-id'' \<noteq> Inr i" by (simp add: oid_def ObjectId_of_str_def)
  have 2: "\<forall>i. oid ''xyz'' \<noteq> Inr i" by (simp add: oid_def ObjectId_of_str_def)
  show ?thesis
    using 1 2 availability_before_decoding[of
      "\<lparr>player_a_id = ''not-an-id'', player_b_id = ''507f1f77bcf86cd799439011'',
       location = None, level = None, started_at = None, completed_at = None\<rparr>" "ObjectId []"
      "\<lparr>match_id = ''507f1f77bcf86cd799439011'', scorer_id = ''xyz'', rally_length = 3,
       winner_shot = None, unforced_error = False, point_notes = None\<rparr>"
      "\<lparr>player_coll = [], match_coll = [], point_coll = []\<rparr>"]
    by simp
qed

subsection \<open>Player analytics\<close>

lemma find_one_None: "(\<forall>x\<in>set xs. \<not> q x) \<Longrightarrow> find_one q xs = None"
  by (simp add: find_one_def filter_empty_conv split: list.splits)

lemma find_one_Some: "find_one q xs = Some x \<Longrightarrow> x \<in> set xs \<and> q x"
proof -
  assume "find_one q xs = Some x"
  then obtain ys where "filter q xs = x # ys"
    by (auto simp: find_one_def split: list.splits)
  then have "x \<in> set (filter q xs)" by simp
  then show ?thesis by simp
qed

lemma find_one_cases:
  "(find_one q xs = None \<and> (\<forall>x\<in>set xs. \<not> q x)) \<or> (\<exists>x\<in>set xs. q x \<and> find_one q xs = Some x)"
proof (cases "find_one q xs")
  case None
  then have "filter q xs = []" by (simp add: find_one_def split: list.splits)
  with None show ?thesis by (simp add: filter_empty_conv)
next
  case (Some x)
  with find_one_Some[OF Some] show ?thesis by auto
qed

text \<open>
  Claim C1. When the identifier decodes and no stored match has it as \<open>player_a_id\<close>
  or \<open>player_b_id\<close>, \<open>player_analytics\<close> returns a summary, not an error: both
  totals 0, no average, an empty shot distribution, 0 matches, and the name of a
  stored player with that identifier, or no name when there is none.
\<close>

theorem player_analytics_no_matches:
  assumes "oid player_id = Inr i"
    and "\<forall>m\<in>set (match_coll d). player_a_id m \<noteq> i \<and> player_b_id m \<noteq> i"
  shows "\<exists>a. player_analytics double (Some d) player_id = Inr a
           \<and> totals a = \<lparr>points_won = 0, points_lost = 0, avg_rally = None\<rparr>
           \<and> shot_distribution a = [] \<and> matches a = 0
           \<and> ((\<exists>p\<in>set (player_coll d). player_doc_id p = i \<and> player a = Some (name p))
                \<or> ((\<forall>p\<in>set (player_coll d). player_doc_id p \<noteq> i) \<and> player a = None))"
proof -
  have "filter (\<lambda>m. player_a_id m = i \<or> player_b_id m = i) (match_coll d) = []"
    using assms(2) by (simp add: filter_empty_conv)
  then have "player_analytics double (Some d) player_id =
      Inr \<lparr>player = map_option name (find_one (\<lambda>p. player_doc_id p = i) (player_coll d)),
           totals = \<lparr>points_won = 0, points_lost = 0, avg_rally = None\<rparr>,
           shot_distribution = [], matches = 0\<rparr>"
    using assms(1) by (simp add: player_analytics_def)
  then show ?thesis
    using find_one_cases[of "\<lambda>p. player_doc_id p = i" "player_coll d"] by auto
qed

theorem player_analytics_no_matches_witness:
  "\<exists>a. player_analytics (nearest_multiple 49)
          (Some \<lparr>player_coll = [\<lparr>name = ''Ann'', rating = None, handedness = None,
                                 player_doc_id = ObjectId [1, 1, 1, 1, 1, 1, 1, 1, 1, 1, 1, 1]\<rparr>],
                 match_coll = [\<lparr>player_a_id = ObjectId [2, 2, 2, 2, 2, 2, 2, 2, 2, 2, 2, 2],
                                player_b_id = ObjectId [3, 3, 3, 3, 3, 3, 3, 3, 3, 3, 3, 3],
                                location = None, level = None, started_at = None,
                                completed_at = None,
                                match_doc_id = ObjectId [9, 9, 9, 9, 9, 9, 9, 9, 9, 9, 9, 9]\<rparr>],
                 point_coll = [\<lparr>match_id = ObjectId [9, 9, 9, 9, 9, 9, 9, 9, 9, 9, 9, 9],
                                scorer_id = ObjectId [2, 2, 2, 2, 2, 2, 2, 2, 2, 2, 2, 2],
                                rally_length = 4, winner_shot = Present Dink,
                                unforced_error = False, point_notes = None,
                                point_doc_id = ObjectId [7, 7, 7, 7, 7, 7, 7, 7, 7, 7, 7, 7]\<rparr>]\<rparr>)
          ''010101010101010101010101'' = Inr a
        \<and> totals a = \<lparr>points_won = 0, points_lost = 0, avg_rally = None\<rparr>
        \<and> shot_distribution a = [] \<and> matches a = 0 \<and> player a = Some ''Ann''"
proof -
  have o: "oid ''010101010101010101010101'' = Inr (ObjectId [1, 1, 1, 1, 1, 1, 1, 1, 1, 1, 1, 1])"
    by (simp add: oid_def ObjectId_of_str_def is_space_def hex_value_def)
  show ?thesis
    using player_analytics_no_matches[OF o, where double = "nearest_multiple 49" and
        d = "\<lparr>player_coll = [\<lparr>name = ''Ann'', rating = None, handedness = None,
                                 player_doc_id = ObjectId [1, 1, 1, 1, 1, 1, 1, 1, 1, 1, 1, 1]\<rparr>],
                 match_coll = [\<lparr>player_a_id = ObjectId [2, 2, 2, 2, 2, 2, 2, 2, 2, 2, 2, 2],
                                player_b_id = ObjectId [3, 3, 3, 3, 3, 3, 3, 3, 3, 3, 3, 3],
                                location = None, level = None, started_at = None,
                                completed_at = None,
                                match_doc_id = ObjectId [9, 9, 9, 9, 9, 9, 9, 9, 9, 9, 9, 9]\<rparr>],
                 point_coll = [\<lparr>match_id = ObjectId [9, 9, 9, 9, 9, 9, 9, 9, 9, 9, 9, 9],
                                scorer_id = ObjectId [2, 2, 2, 2, 2, 2, 2, 2, 2, 2, 2, 2],
                                rally_length = 4, winner_shot = Present Dink,
                                unforced_error = False, point_notes = None,
                                point_doc_id = ObjectId [7, 7, 7, 7, 7, 7, 7, 7, 7, 7, 7, 7]\<rparr>]\<rparr>"]
    by auto
qed

lemmas example_defs = example_db_def example_match_def example_point_def
  ann_def bob_def cy_def match_id1_def match_id2_def match_id3_def

lemma oid_ann: "oid ''010101010101010101010101'' = Inr ann"
  by (simp add: oid_def ObjectId_of_str_def is_space_def hex_value_def ann_def)

lemma group_stage_unit:
  "group_stage (\<lambda>p. ()) xs = (if xs = [] then [] else [((), xs)])"
proof -
  have "remdups (map (\<lambda>p. ()) xs) = (if xs = [] then [] else [()])"
  proof (induction xs)
    case Nil
    show ?case by simp
  next
    case (Cons a xs)
    then show ?case by (cases xs) simp_all
  qed
  then show ?thesis by (simp add: group_stage_def)
qed

lemma in_set_map_iff: "(y \<in> set (map f xs)) = (\<exists>x\<in>set xs. f x = y)"
  by auto

lemma in_match_ids:
  "(match_id p \<in> set (map match_doc_id (filter (\<lambda>m. player_a_id m = i \<or> player_b_id m = i) (match_coll d))))
   = (\<exists>m\<in>set (matches_of d i). match_doc_id m = match_id p)"
  by (simp only: matches_of_def in_set_map_iff)

text \<open>
  Claim C2. For a player with at least one match, \<open>points_won\<close> counts the points
  in the player's matches that the player scored, \<open>points_lost\<close> counts the points
  in those same matches scored by any other identifier, and \<open>avg_rally\<close> is the
  average rally length of all points in those matches, whoever scored them: the
  double nearest to the quotient of the sum of their rally lengths and their number
  (there is no average when those matches have no point).
\<close>

theorem player_analytics_totals:
  assumes "oid player_id = Inr i"
    and "\<exists>m\<in>set (match_coll d). player_a_id m = i \<or> player_b_id m = i"
  shows "\<exists>a. player_analytics double (Some d) player_id = Inr a
           \<and> points_won (totals a) = length (filter (\<lambda>p. scorer_id p = i) (points_in_matches_of d i))
           \<and> points_lost (totals a) = length (filter (\<lambda>p. scorer_id p \<noteq> i) (points_in_matches_of d i))
           \<and> avg_rally (totals a) =
               (if points_in_matches_of d i = [] then None
                else Some (double (of_int (sum_list (map rally_length (points_in_matches_of d i)))
                                   / of_nat (length (points_in_matches_of d i)))))
           \<and> matches a = length (matches_of d i)"
proof -
  let ?ms = "filter (\<lambda>m. player_a_id m = i \<or> player_b_id m = i) (match_coll d)"
  let ?ids = "map match_doc_id ?ms"
  have ne: "?ids \<noteq> []" using assms(2) by (auto simp: filter_empty_conv)
  have pts: "filter (\<lambda>p. match_id p \<in> set ?ids) (point_coll d) = points_in_matches_of d i"
    unfolding points_in_matches_of_def in_match_ids ..
  have won: "count_documents (\<lambda>p. match_id p \<in> set ?ids \<and> scorer_id p = i) (point_coll d)
      = length (filter (\<lambda>p. scorer_id p = i) (points_in_matches_of d i))"
    unfolding count_documents_def pts[symmetric] by simp
  have lost: "count_documents (\<lambda>p. match_id p \<in> set ?ids \<and> scorer_id p \<noteq> i) (point_coll d)
      = length (filter (\<lambda>p. scorer_id p \<noteq> i) (points_in_matches_of d i))"
    unfolding count_documents_def pts[symmetric] by simp
  have av: "(case map (\<lambda>g. avg double (map rally_length (snd g)))
                 (group_stage (\<lambda>p. ()) (filter (\<lambda>p. match_id p \<in> set ?ids) (point_coll d))) of
              [] \<Rightarrow> None | r # rs \<Rightarrow> r)
      = (if points_in_matches_of d i = [] then None
         else Some (double (of_int (sum_list (map rally_length (points_in_matches_of d i)))
                            / of_nat (length (points_in_matches_of d i)))))"
    unfolding pts group_stage_unit by (simp add: avg_def)
  have "player_analytics double (Some d) player_id =
      Inr \<lparr>player = map_option name (find_one (\<lambda>p. player_doc_id p = i) (player_coll d)),
           totals = \<lparr>points_won = count_documents
                        (\<lambda>p. match_id p \<in> set ?ids \<and> scorer_id p = i) (point_coll d),
                     points_lost = count_documents
                        (\<lambda>p. match_id p \<in> set ?ids \<and> scorer_id p \<noteq> i) (point_coll d),
                     avg_rally = (case map (\<lambda>g. avg double (map rally_length (snd g)))
                         (group_stage (\<lambda>p. ())
                            (filter (\<lambda>p. match_id p \<in> set ?ids) (point_coll d))) of
                       [] \<Rightarrow> None | r # rs \<Rightarrow> r)\<rparr>,
           shot_distribution = concat (map (\<lambda>r. case fst r of None \<Rightarrow> [] | Some w \<Rightarrow> [(w, snd r)])
              (sort_stage_desc snd
                 (map (\<lambda>g. (fst g, length (snd g)))
                    (group_stage (\<lambda>p. field_value (winner_shot p))
                       (filter (\<lambda>p. match_id p \<in> set ?ids \<and> scorer_id p = i
                                   \<and> winner_shot p \<noteq> Absent) (point_coll d)))))),
           matches = length ?ms\<rparr>"
    using ne unfolding player_analytics_def Let_def assms(1) by simp
  then show ?thesis
    unfolding won lost av matches_of_def by simp
qed

text \<open>
  The witness is Cy, who plays in the matches that start at 200 and 300 and scored
  none of their three points. Their rally lengths are 10, 8 and 7: the average is
  the double nearest to 25/3, which is \<open>4691249611844267 / 2 ^ 49\<close>
  (8.333333333333334), not 25/3.
\<close>

theorem player_analytics_totals_witness:
  "\<exists>a. player_analytics (nearest_multiple 49) (Some example_db) ''030303030303030303030303'' = Inr a
        \<and> points_won (totals a) = 0 \<and> points_lost (totals a) = 3
        \<and> avg_rally (totals a) = Some (4691249611844267 / 562949953421312)
        \<and> avg_rally (totals a) \<noteq> Some (25 / 3) \<and> matches a = 2"
proof -
  have o: "oid ''030303030303030303030303'' = Inr cy"
    by (simp add: oid_def ObjectId_of_str_def is_space_def hex_value_def cy_def)
  have m: "\<exists>m\<in>set (match_coll example_db). player_a_id m = cy \<or> player_b_id m = cy"
    by (simp add: example_defs)
  have p: "points_in_matches_of example_db cy =
      [example_point 6 match_id2 bob 10 (Present Lob),
       example_point 7 match_id2 bob 8 Null,
       example_point 8 match_id3 ann 7 (Present Dink)]"
    by (simp add: points_in_matches_of_def matches_of_def example_defs)
  have l: "length (matches_of example_db cy) = 2"
    by (simp add: matches_of_def example_defs)
  have r: "nearest_multiple 49 (25 / 3) = 4691249611844267 / 562949953421312"
    by code_simp
  have n: "(4691249611844267 / 562949953421312 :: rat) \<noteq> 25 / 3"
    by simp
  show ?thesis
    using player_analytics_totals[OF o m, of "nearest_multiple 49"] n unfolding p l
    by (auto simp: example_point_def ann_def bob_def cy_def r)
qed

subsection \<open>The shot distribution\<close>

lemma map_of_present:
  "map_of (concat (map (\<lambda>r. case fst r of None \<Rightarrow> [] | Some w \<Rightarrow> [(w, snd r)]) rs)) w
   = map_of rs (Some w)"
proof (induction rs)
  case Nil
  show ?case by simp
next
  case (Cons r rs)
  obtain k c where r: "r = (k, c)" by (cases r)
  show ?case using Cons r by (cases k) auto
qed

lemma distinct_fst_sort_stage_desc:
  "distinct (map fst (sort_stage_desc key rs)) = distinct (map fst rs)"
  by (simp add: sort_stage_desc_def distinct_map rev_map[symmetric])

lemma map_of_sort_stage_desc:
  assumes "distinct (map fst rs)"
  shows "map_of (sort_stage_desc key rs) = map_of rs"
proof -
  have "distinct (map fst (sort_stage_desc key rs))"
    using assms by (simp add: distinct_fst_sort_stage_desc)
  moreover have "set (sort_stage_desc key rs) = set rs"
    by (simp add: sort_stage_desc_def)
  ultimately show ?thesis
    using assms map_of_inject_set by blast
qed

lemma map_of_group_counts:
  "map_of (map (\<lambda>g. (fst g, length (snd g))) (group_stage key xs)) k
   = (if k \<in> key ` set xs then Some (length (filter (\<lambda>d. key d = k) xs)) else None)"
proof -
  have "map (\<lambda>g. (fst g, length (snd g))) (group_stage key xs)
      = map (\<lambda>k. (k, length (filter (\<lambda>d. key d = k) xs))) (remdups (map key xs))"
    by (simp add: group_stage_def comp_def)
  then show ?thesis
    by (simp add: map_of_map_restrict restrict_map_def)
qed

lemma distinct_group_keys:
  "distinct (map fst (map (\<lambda>g. (fst g, length (snd g))) (group_stage key xs)))"
  by (simp add: group_stage_def comp_def)

lemma player_analytics_shots:
  assumes "oid pid = Inr i"
  shows "\<exists>a. player_analytics double (Some d) pid = Inr a
     \<and> shot_distribution a =
        (if matches_of d i = [] then []
         else concat (map (\<lambda>r. case fst r of None \<Rightarrow> [] | Some w \<Rightarrow> [(w, snd r)])
                (sort_stage_desc snd
                   (map (\<lambda>g. (fst g, length (snd g)))
                      (group_stage (\<lambda>p. field_value (winner_shot p))
                         (filter (\<lambda>p. (scorer_id p = i \<and> winner_shot p \<noteq> Absent))
                            (points_in_matches_of d i)))))))"
proof (cases "matches_of d i = []")
  case True
  then show ?thesis using assms by (simp add: player_analytics_def matches_of_def)
next
  case False
  have f: "filter (\<lambda>p. match_id p \<in> set (map match_doc_id
               (filter (\<lambda>m. player_a_id m = i \<or> player_b_id m = i) (match_coll d)))
             \<and> scorer_id p = i \<and> winner_shot p \<noteq> Absent) (point_coll d)
      = filter (\<lambda>p. (scorer_id p = i \<and> winner_shot p \<noteq> Absent)) (points_in_matches_of d i)"
    unfolding in_match_ids points_in_matches_of_def by simp
  from False have ne: "filter (\<lambda>m. player_a_id m = i \<or> player_b_id m = i) (match_coll d) \<noteq> []"
    by (simp add: matches_of_def)
  have "\<exists>pl t mt. player_analytics double (Some d) pid =
      Inr \<lparr>player = pl, totals = t,
           shot_distribution = concat (map (\<lambda>r. case fst r of None \<Rightarrow> [] | Some w \<Rightarrow> [(w, snd r)])
                (sort_stage_desc snd
                   (map (\<lambda>g. (fst g, length (snd g)))
                      (group_stage (\<lambda>p. field_value (winner_shot p))
                         (filter (\<lambda>p. (scorer_id p = i \<and> winner_shot p \<noteq> Absent))
                            (points_in_matches_of d i)))))),
           matches = mt\<rparr>"
    by (simp only: player_analytics_def Let_def assms sum.case option.case map_is_Nil_conv ne
        if_False f) blast
  then show ?thesis using False by auto
qed

lemma field_value_Some: "(field_value f = Some w) = (f = Present w)"
  by (cases f) (simp_all add: field_value_def)

lemma shot_count_analytics:
  assumes "oid pid = Inr i"
  shows "\<exists>a. player_analytics double (Some d) pid = Inr a
           \<and> (\<forall>w. shot_count (shot_distribution a) w = winning_shots d i w)"
proof -
  from player_analytics_shots[OF assms, where d = d and double = double] obtain a where
    a: "player_analytics double (Some d) pid = Inr a" and
    sd: "shot_distribution a =
        (if matches_of d i = [] then []
         else concat (map (\<lambda>r. case fst r of None \<Rightarrow> [] | Some w \<Rightarrow> [(w, snd r)])
                (sort_stage_desc snd
                   (map (\<lambda>g. (fst g, length (snd g)))
                      (group_stage (\<lambda>p. field_value (winner_shot p))
                         (filter (\<lambda>p. (scorer_id p = i \<and> winner_shot p \<noteq> Absent))
                            (points_in_matches_of d i)))))))"
    by blast
  have "shot_count (shot_distribution a) w = winning_shots d i w" for w
  proof (cases "matches_of d i = []")
    case True
    then show ?thesis using sd
      by (simp add: shot_count_def winning_shots_def points_in_matches_of_def)
  next
    case False
    let ?xs = "filter (\<lambda>p. (scorer_id p = i \<and> winner_shot p \<noteq> Absent)) (points_in_matches_of d i)"
    let ?key = "\<lambda>p. field_value (winner_shot p)"
    have m: "map_of (shot_distribution a) w
        = (if Some w \<in> ?key ` set ?xs then Some (length (filter (\<lambda>p. ?key p = Some w) ?xs)) else None)"
      using False sd
      by (simp only: if_False map_of_present map_of_sort_stage_desc[OF distinct_group_keys]
          map_of_group_counts)
    have c: "length (filter (\<lambda>p. ?key p = Some w) ?xs) = winning_shots d i w"
      unfolding winning_shots_def field_value_Some filter_filter
      by (rule arg_cong[where f = length], rule filter_cong) auto
    have z: "winning_shots d i w = 0" if n: "Some w \<notin> ?key ` set ?xs"
    proof -
      have "\<not> (scorer_id p = i \<and> winner_shot p = Present w)"
        if p: "p \<in> set (points_in_matches_of d i)" for p
      proof
        assume h: "scorer_id p = i \<and> winner_shot p = Present w"
        with p have "p \<in> set ?xs" by simp
        moreover from h have "?key p = Some w" by (simp add: field_value_def)
        ultimately have "Some w \<in> ?key ` set ?xs" by (rule_tac x = p in image_eqI) simp_all
        with n show False by simp
      qed
      then show ?thesis unfolding winning_shots_def by (simp add: filter_empty_conv)
    qed
    show ?thesis using m c z by (auto simp: shot_count_def)
  qed
  with a show ?thesis by blast
qed

lemma shot_distribution_append:
  assumes "match_coll d' = match_coll d" "player_coll d' = player_coll d"
    and "point_coll d' = point_coll d @ [doc]"
    and "\<not> ((\<exists>m\<in>set (matches_of d i). match_doc_id m = match_id doc)
            \<and> scorer_id doc = i \<and> winner_shot doc \<noteq> Absent)"
    and "oid pid = Inr i"
  shows "\<exists>a a'. player_analytics double (Some d) pid = Inr a \<and> player_analytics double (Some d') pid = Inr a'
          \<and> shot_distribution a' = shot_distribution a"
proof -
  have m: "matches_of d' i = matches_of d i" using assms(1) by (simp add: matches_of_def)
  have p: "points_in_matches_of d' i
      = points_in_matches_of d i @ filter (\<lambda>p. \<exists>m\<in>set (matches_of d i). match_doc_id m = match_id p) [doc]"
    unfolding points_in_matches_of_def m assms(3) by simp
  have "filter (\<lambda>p. (scorer_id p = i \<and> winner_shot p \<noteq> Absent)) (points_in_matches_of d' i)
      = filter (\<lambda>p. (scorer_id p = i \<and> winner_shot p \<noteq> Absent)) (points_in_matches_of d i)"
    unfolding p using assms(4) by auto
  then show ?thesis
    using player_analytics_shots[OF assms(5), where d = d and double = double]
      player_analytics_shots[OF assms(5), where d = d' and double = double] m
    by auto
qed

lemma create_point_Inr:
  assumes "create_point (Some d) pt new_id = Inr (r, d')"
  shows "\<exists>m s. oid (match_id pt) = Inr m \<and> oid (scorer_id pt) = Inr s
          \<and> r = str_ObjectId new_id
          \<and> d' = d\<lparr>point_coll := point_coll d @
                 [\<lparr>match_id = m, scorer_id = s, rally_length = rally_length pt,
                   winner_shot = (case winner_shot pt of None \<Rightarrow> Absent | Some w \<Rightarrow> Present w),
                   unforced_error = unforced_error pt, point_notes = point_notes pt,
                   point_doc_id = new_id\<rparr>]\<rparr>"
  using assms
  by (auto simp: create_point_def insert_one_def split: sum.splits if_splits)

lemma oid_match_id1: "oid ''090000000000000000000001'' = Inr match_id1"
  by (simp add: oid_def ObjectId_of_str_def is_space_def hex_value_def match_id1_def)

lemma oid_match_id2: "oid ''090000000000000000000002'' = Inr match_id2"
  by (simp add: oid_def ObjectId_of_str_def is_space_def hex_value_def match_id2_def)

lemma winning_shots_append:
  assumes "match_coll d' = match_coll d" and "point_coll d' = point_coll d @ [doc]"
    and "\<exists>m\<in>set (matches_of d i). match_doc_id m = match_id doc"
    and "scorer_id doc = i" and "winner_shot doc = Present w"
  shows "winning_shots d' i v = winning_shots d i v + (if v = w then 1 else 0)"
proof -
  have m: "matches_of d' i = matches_of d i" using assms(1) by (simp add: matches_of_def)
  have "points_in_matches_of d' i = points_in_matches_of d i @ [doc]"
    unfolding points_in_matches_of_def m assms(2) using assms(3) by simp
  then show ?thesis
    using assms(4,5) by (simp add: winning_shots_def)
qed

text \<open>
  Claim C5, as amended. A point created without \<open>winner_shot\<close> is stored with the
  field left out, and the shot distribution of every player is what it was before.
  A point created with a winner shot, for a match that is stored and has the scorer
  on one side, raises the count of that category in the scorer's shot distribution
  by exactly 1 and leaves the other categories as they were. When no stored match
  with that identifier has the scorer on a side, the scorer's shot distribution is
  what it was before.
\<close>

theorem create_point_shot_distribution:
  assumes "create_point (Some d) pt new_id = Inr (r, d')"
  shows "(\<exists>doc. point_coll d' = point_coll d @ [doc]
            \<and> (winner_shot pt = None \<longrightarrow> winner_shot doc = Absent)
            \<and> (\<forall>w. winner_shot pt = Some w \<longrightarrow> winner_shot doc = Present w))
     \<and> (winner_shot pt = None \<longrightarrow>
          (\<forall>pid. map_sum id shot_distribution (player_analytics double (Some d') pid)
               = map_sum id shot_distribution (player_analytics double (Some d) pid)))
     \<and> (\<forall>w s m. winner_shot pt = Some w \<and> oid (scorer_id pt) = Inr s \<and> oid (match_id pt) = Inr m
            \<and> (\<exists>x\<in>set (matches_of d s). match_doc_id x = m)
          \<longrightarrow> (\<exists>a a'. player_analytics double (Some d) (scorer_id pt) = Inr a
                 \<and> player_analytics double (Some d') (scorer_id pt) = Inr a'
                 \<and> shot_count (shot_distribution a') w = shot_count (shot_distribution a) w + 1
                 \<and> (\<forall>v. v \<noteq> w \<longrightarrow>
                       shot_count (shot_distribution a') v = shot_count (shot_distribution a) v)))
     \<and> (\<forall>s m. oid (scorer_id pt) = Inr s \<and> oid (match_id pt) = Inr m
            \<and> (\<forall>x\<in>set (matches_of d s). match_doc_id x \<noteq> m)
          \<longrightarrow> map_sum id shot_distribution (player_analytics double (Some d') (scorer_id pt))
              = map_sum id shot_distribution (player_analytics double (Some d) (scorer_id pt)))"
proof -
  from create_point_Inr[OF assms] obtain m s where
    om: "oid (match_id pt) = Inr m" and os: "oid (scorer_id pt) = Inr s" and
    d': "d' = d\<lparr>point_coll := point_coll d @
                 [\<lparr>match_id = m, scorer_id = s, rally_length = rally_length pt,
                   winner_shot = (case winner_shot pt of None \<Rightarrow> Absent | Some w \<Rightarrow> Present w),
                   unforced_error = unforced_error pt, point_notes = point_notes pt,
                   point_doc_id = new_id\<rparr>]\<rparr>"
    by blast
  let ?doc = "\<lparr>match_id = m, scorer_id = s, rally_length = rally_length pt,
                   winner_shot = (case winner_shot pt of None \<Rightarrow> Absent | Some w \<Rightarrow> Present w),
                   unforced_error = unforced_error pt, point_notes = point_notes pt,
                   point_doc_id = new_id\<rparr>"
  have mc: "match_coll d' = match_coll d" and pc: "player_coll d' = player_coll d"
    and pt: "point_coll d' = point_coll d @ [?doc]"
    by (simp_all add: d')
  have 1: "\<exists>doc. point_coll d' = point_coll d @ [doc]
            \<and> (winner_shot pt = None \<longrightarrow> winner_shot doc = Absent)
            \<and> (\<forall>w. winner_shot pt = Some w \<longrightarrow> winner_shot doc = Present w)"
    using pt by (intro exI[of _ ?doc]) simp
  have 2: "map_sum id shot_distribution (player_analytics double (Some d') pid)
         = map_sum id shot_distribution (player_analytics double (Some d) pid)"
    if n: "winner_shot pt = None" for pid
  proof (cases "oid pid")
    case (Inl e)
    then show ?thesis by (simp add: player_analytics_def)
  next
    case (Inr i)
    have "\<not> ((\<exists>x\<in>set (matches_of d i). match_doc_id x = match_id ?doc)
            \<and> scorer_id ?doc = i \<and> winner_shot ?doc \<noteq> Absent)"
      using n by simp
    from shot_distribution_append[OF mc pc pt this Inr, where double = double] show ?thesis by auto
  qed
  have 3: "\<exists>a a'. player_analytics double (Some d) (scorer_id pt) = Inr a
                 \<and> player_analytics double (Some d') (scorer_id pt) = Inr a'
                 \<and> shot_count (shot_distribution a') w = shot_count (shot_distribution a) w + 1
                 \<and> (\<forall>v. v \<noteq> w \<longrightarrow>
                       shot_count (shot_distribution a') v = shot_count (shot_distribution a) v)"
    if w: "winner_shot pt = Some w" and x: "\<exists>x\<in>set (matches_of d s). match_doc_id x = m" for w
  proof -
    from shot_count_analytics[OF os, where d = d and double = double] obtain a where
      a: "player_analytics double (Some d) (scorer_id pt) = Inr a"
         "\<forall>v. shot_count (shot_distribution a) v = winning_shots d s v"
      by blast
    from shot_count_analytics[OF os, where d = d' and double = double] obtain a' where
      a': "player_analytics double (Some d') (scorer_id pt) = Inr a'"
         "\<forall>v. shot_count (shot_distribution a') v = winning_shots d' s v"
      by blast
    have "winning_shots d' s v = winning_shots d s v + (if v = w then 1 else 0)" for v
      by (rule winning_shots_append[OF mc pt]) (use w x in simp_all)
    with a a' show ?thesis by auto
  qed
  have 4: "map_sum id shot_distribution (player_analytics double (Some d') (scorer_id pt))
         = map_sum id shot_distribution (player_analytics double (Some d) (scorer_id pt))"
    if x: "\<forall>x\<in>set (matches_of d s). match_doc_id x \<noteq> m"
  proof -
    have "\<not> ((\<exists>x\<in>set (matches_of d s). match_doc_id x = match_id ?doc)
            \<and> scorer_id ?doc = s \<and> winner_shot ?doc \<noteq> Absent)"
      using x by simp
    from shot_distribution_append[OF mc pc pt this os, where double = double] show ?thesis by auto
  qed
  show ?thesis
    using 1 2 3 4 om os by auto
qed

theorem create_point_shot_distribution_witness:
  "(\<exists>a a'. player_analytics (nearest_multiple 49) (Some example_db) ''010101010101010101010101'' = Inr a
      \<and> player_analytics (nearest_multiple 49)
           (Some (example_db\<lparr>point_coll := point_coll example_db @
              [example_point 9 match_id1 ann 4 (Present Dink)]\<rparr>))
           ''010101010101010101010101'' = Inr a'
      \<and> shot_count (shot_distribution a') Dink = shot_count (shot_distribution a) Dink + 1)
   \<and> map_sum id shot_distribution
        (player_analytics (nearest_multiple 49)
           (Some (example_db\<lparr>point_coll := point_coll example_db @
              [example_point 9 match_id1 ann 4 Absent]\<rparr>))
           ''010101010101010101010101'')
     = map_sum id shot_distribution
        (player_analytics (nearest_multiple 49) (Some example_db) ''010101010101010101010101'')"
proof -
  have c1: "create_point (Some example_db)
     \<lparr>match_id = ''090000000000000000000001'', scorer_id = ''010101010101010101010101'',
      rally_length = 4, winner_shot = Some Dink, unforced_error = False, point_notes = None\<rparr>
     (ObjectId [7, 0, 0, 0, 0, 0, 0, 0, 0, 0, 0, 9])
   = Inr (''070000000000000000000009'',
          example_db\<lparr>point_coll := point_coll example_db @
             [example_point 9 match_id1 ann 4 (Present Dink)]\<rparr>)"
    by code_simp
  have c2: "create_point (Some example_db)
     \<lparr>match_id = ''090000000000000000000001'', scorer_id = ''010101010101010101010101'',
      rally_length = 4, winner_shot = None, unforced_error = False, point_notes = None\<rparr>
     (ObjectId [7, 0, 0, 0, 0, 0, 0, 0, 0, 0, 0, 9])
   = Inr (''070000000000000000000009'',
          example_db\<lparr>point_coll := point_coll example_db @
             [example_point 9 match_id1 ann 4 Absent]\<rparr>)"
    by code_simp
  have x: "\<exists>x\<in>set (matches_of example_db ann). match_doc_id x = match_id1"
    by (simp add: matches_of_def example_defs)
  note t3 = create_point_shot_distribution[OF c1, where double = "nearest_multiple 49",
      THEN conjunct2, THEN conjunct2, THEN conjunct1, rule_format, of Dink ann match_id1]
  note t2 = create_point_shot_distribution[OF c2, where double = "nearest_multiple 49",
      THEN conjunct2, THEN conjunct1, rule_format, of "''010101010101010101010101''"]
  have a: "\<exists>a a'. player_analytics (nearest_multiple 49) (Some example_db) ''010101010101010101010101'' = Inr a
      \<and> player_analytics (nearest_multiple 49)
           (Some (example_db\<lparr>point_coll := point_coll example_db @
              [example_point 9 match_id1 ann 4 (Present Dink)]\<rparr>))
           ''010101010101010101010101'' = Inr a'
      \<and> shot_count (shot_distribution a') Dink = shot_count (shot_distribution a) Dink + 1"
    using t3 oid_ann oid_match_id1 x by simp blast
  have b: "map_sum id shot_distribution
        (player_analytics (nearest_multiple 49)
           (Some (example_db\<lparr>point_coll := point_coll example_db @
              [example_point 9 match_id1 ann 4 Absent]\<rparr>))
           ''010101010101010101010101'')
     = map_sum id shot_distribution
        (player_analytics (nearest_multiple 49) (Some example_db) ''010101010101010101010101'')"
    using t2 by simp
  show ?thesis using a b by (rule conjI)
qed

text \<open>
  The claim as stated fails for a point whose match is not one of the scorer's: Ann
  scores with a dink in the match of Bob and Cy, and her count of dinks stays 2.
\<close>

theorem create_point_foreign_match_counterexample:
  "create_point (Some example_db)
     \<lparr>match_id = ''090000000000000000000002'', scorer_id = ''010101010101010101010101'',
      rally_length = 4, winner_shot = Some Dink, unforced_error = False, point_notes = None\<rparr>
     (ObjectId [7, 0, 0, 0, 0, 0, 0, 0, 0, 0, 0, 9])
   = Inr (''070000000000000000000009'',
          example_db\<lparr>point_coll := point_coll example_db @
             [example_point 9 match_id2 ann 4 (Present Dink)]\<rparr>)
   \<and> map_sum id shot_distribution
         (player_analytics (nearest_multiple 49) (Some example_db) ''010101010101010101010101'') = Inr [(Dink, 2)]
   \<and> map_sum id shot_distribution
         (player_analytics (nearest_multiple 49)
            (Some (example_db\<lparr>point_coll := point_coll example_db @
               [example_point 9 match_id2 ann 4 (Present Dink)]\<rparr>))
            ''010101010101010101010101'') = Inr [(Dink, 2)]"
  by code_simp

subsection \<open>Validation of a player\<close>

text \<open>
  Claim C9, as amended. A body whose \<open>name\<close> is missing, null or not text fails
  validation with a 422 error that names the field. A body whose \<open>name\<close> is any
  text, the empty string included, validates when \<open>rating\<close> is omitted, null or a
  number that is read as a float within 0 and 6, and \<open>handedness\<close> is omitted,
  null, left or right.
\<close>

theorem validate_Player_name:
  "(name_in body = Missing \<or> name_in body = JsonNull \<or> name_in body = Mistyped
      \<longrightarrow> (\<exists>errs p. validate_Player double body = Inl (RequestValidationError errs)
            \<and> (''name'', p) \<in> set errs
            \<and> http_status (RequestValidationError errs) = 422))
   \<and> (name_in body = Given n
        \<and> (rating_in body = Missing \<or> rating_in body = JsonNull
             \<or> (\<exists>r. rating_in body = Given r \<and> 0 \<le> double r \<and> double r \<le> 6))
        \<and> (handedness_in body = Missing \<or> handedness_in body = JsonNull
             \<or> handedness_in body = Given ''left'' \<or> handedness_in body = Given ''right'')
      \<longrightarrow> (\<exists>r h. validate_Player double body = Inr \<lparr>name = n, rating = r, handedness = h\<rparr>))"
  by (auto simp: validate_Player_def required_str_def optional_float_def optional_hand_def
      field_errors_def Let_def split: sum.splits input.splits)

text \<open>
  The witness has a body with no name, and two bodies with the empty name: one with
  the rating 6, one with the rating 6.0000000000000001, which is read as the float
  6.0.
\<close>

theorem validate_Player_name_witness:
  "(\<exists>errs p. validate_Player (nearest_multiple 50)
        \<lparr>name_in = Missing, rating_in = Given 3, handedness_in = Missing\<rparr>
       = Inl (RequestValidationError errs) \<and> (''name'', p) \<in> set errs)
   \<and> (\<exists>r h. validate_Player (nearest_multiple 50)
        \<lparr>name_in = Given '''', rating_in = Given 6, handedness_in = Given ''left''\<rparr>
       = Inr \<lparr>name = '''', rating = r, handedness = h\<rparr>)
   \<and> (\<exists>r h. validate_Player (nearest_multiple 50)
        \<lparr>name_in = Given '''', rating_in = Given (60000000000000001 / 10000000000000000),
         handedness_in = JsonNull\<rparr>
       = Inr \<lparr>name = '''', rating = r, handedness = h\<rparr>)"
proof -
  have r: "nearest_multiple 50 6 = 6"
    "nearest_multiple 50 (60000000000000001 / 10000000000000000) = 6"
    by code_simp+
  have a: "\<exists>errs p. validate_Player (nearest_multiple 50)
        \<lparr>name_in = Missing, rating_in = Given 3, handedness_in = Missing\<rparr>
       = Inl (RequestValidationError errs) \<and> (''name'', p) \<in> set errs"
    using validate_Player_name[of "\<lparr>name_in = Missing, rating_in = Given 3, handedness_in = Missing\<rparr>"
        "nearest_multiple 50"]
    by simp
  have "\<exists>x. rating_in \<lparr>name_in = Given '''', rating_in = Given 6, handedness_in = Given ''left''\<rparr>
           = Given x \<and> 0 \<le> nearest_multiple 50 x \<and> nearest_multiple 50 x \<le> 6"
    by (rule exI[of _ 6]) (simp add: r)
  then have b: "\<exists>r h. validate_Player (nearest_multiple 50)
        \<lparr>name_in = Given '''', rating_in = Given 6, handedness_in = Given ''left''\<rparr>
       = Inr \<lparr>name = '''', rating = r, handedness = h\<rparr>"
    by (intro validate_Player_name[THEN conjunct2, rule_format]) simp
  have "\<exists>x. rating_in \<lparr>name_in = Given '''',
             rating_in = Given (60000000000000001 / 10000000000000000), handedness_in = JsonNull\<rparr>
           = Given x \<and> 0 \<le> nearest_multiple 50 x \<and> nearest_multiple 50 x \<le> 6"
    by (rule exI[of _ "60000000000000001 / 10000000000000000"]) (simp only: r, simp)
  then have c: "\<exists>r h. validate_Player (nearest_multiple 50)
        \<lparr>name_in = Given '''', rating_in = Given (60000000000000001 / 10000000000000000),
         handedness_in = JsonNull\<rparr>
       = Inr \<lparr>name = '''', rating = r, handedness = h\<rparr>"
    by (intro validate_Player_name[THEN conjunct2, rule_format]) simp
  from a b c show ?thesis by (intro conjI)
qed

text \<open>
  The claim as stated fails at the empty name: the model is built, nothing is
  refused. Its second half fails as stated too: a non-empty name and a rating of 3
  do not make a body valid when its \<open>handedness\<close> is not one of the two literals.
\<close>

theorem validate_Player_empty_name_counterexample:
  "validate_Player (nearest_multiple 50)
     \<lparr>name_in = Given '''', rating_in = Missing, handedness_in = Missing\<rparr>
     = Inr \<lparr>name = '''', rating = None, handedness = None\<rparr>
   \<and> validate_Player (nearest_multiple 50)
     \<lparr>name_in = Given ''Ann'', rating_in = Given 3, handedness_in = Given ''both''\<rparr>
     = Inl (RequestValidationError [(''handedness'', NotInLiteral)])"
proof -
  have r: "nearest_multiple 50 3 = 3" by code_simp
  show ?thesis
    by (simp add: validate_Player_def required_str_def optional_float_def optional_hand_def
        field_errors_def r)
qed

end
